theory Spec2Isabelle
  imports Complex_Main "HOL-Library.Word"
begin

unbundle bit_operations_syntax

section \<open>Single-precision arithmetic\<close>

text \<open>
  The program computes its clock and its projection matrix in C++ \<^verbatim>\<open>float\<close>: IEEE 754
  binary32 with the default rounding (to nearest, ties to even), every operation rounded
  to single precision.  A value is a sign and a non-negative rational magnitude (so that
  the two zeros are distinct), an infinity with its sign, or a NaN.  The payload of a NaN
  is not modelled.
\<close>

datatype f32 = Finite bool rat | Infinity bool | NaN

fun ilog2 :: "nat \<Rightarrow> nat" where
  "ilog2 n = (if n < 2 then 0 else Suc (ilog2 (n div 2)))"

declare ilog2.simps [simp del]

definition pow2 :: "int \<Rightarrow> rat" where
  "pow2 k = (if 0 \<le> k then 2 ^ nat k else 1 / 2 ^ nat (- k))"

definition exponent_of :: "rat \<Rightarrow> int" where
  \<comment> \<open>for \<open>m > 0\<close>: the \<open>e\<close> with \<open>2 ^ e \<le> m < 2 ^ (e + 1)\<close>\<close>
  "exponent_of m =
     (if 1 \<le> m then int (ilog2 (nat \<lfloor>m\<rfloor>))
      else - int (Suc (ilog2 (nat (\<lceil>1 / m\<rceil> - 1)))))"

definition round_half_even :: "rat \<Rightarrow> int" where
  "round_half_even q =
     (let f = \<lfloor>q\<rfloor>; d = q - of_int f
      in if d < 1 / 2 then f
         else if 1 / 2 < d then f + 1
         else if even f then f else f + 1)"

definition round_mag :: "rat \<Rightarrow> rat option" where
  \<comment> \<open>a magnitude rounded to 24 significant bits, exponents from -126 (below it the
      spacing stays \<open>2 ^ -149\<close>: subnormals); \<open>None\<close> is overflow\<close>
  "round_mag m =
     (if m = 0 then Some 0
      else let e = max (exponent_of m) (- 126);
               ulp = pow2 (e - 23);
               r = of_int (round_half_even (m / ulp)) * ulp
           in if pow2 128 \<le> r then None else Some r)"

definition f32_round :: "bool \<Rightarrow> rat \<Rightarrow> f32" where
  "f32_round s m = (case round_mag m of None \<Rightarrow> Infinity s | Some r \<Rightarrow> Finite s r)"

definition f32_of_rat :: "rat \<Rightarrow> f32" where
  \<comment> \<open>a decimal literal such as \<^verbatim>\<open>0.05f\<close>, or an \<^verbatim>\<open>int\<close> converted to \<^verbatim>\<open>float\<close>\<close>
  "f32_of_rat q = f32_round (q < 0) \<bar>q\<bar>"

definition f32_of_int :: "int \<Rightarrow> f32" where
  "f32_of_int i = f32_of_rat (of_int i)"

fun val :: "f32 \<Rightarrow> rat" where
  \<comment> \<open>the number a finite value stands for; it is only used on finite values\<close>
  "val (Finite s m) = (if s then - m else m)"
| "val _ = 0"

fun fneg :: "f32 \<Rightarrow> f32" where
  "fneg (Finite s m) = Finite (\<not> s) m"
| "fneg (Infinity s) = Infinity (\<not> s)"
| "fneg NaN = NaN"

fun fadd :: "f32 \<Rightarrow> f32 \<Rightarrow> f32" where
  "fadd (Finite s m) (Finite t n) =
     (let r = val (Finite s m) + val (Finite t n)
      in if r = 0 then Finite (s \<and> t) 0 else f32_round (r < 0) \<bar>r\<bar>)"
| "fadd (Infinity s) (Infinity t) = (if s = t then Infinity s else NaN)"
| "fadd (Infinity s) (Finite t n) = Infinity s"
| "fadd (Finite s m) (Infinity t) = Infinity t"
| "fadd _ _ = NaN"

definition fsub :: "f32 \<Rightarrow> f32 \<Rightarrow> f32" where
  "fsub a b = fadd a (fneg b)"

fun fmul :: "f32 \<Rightarrow> f32 \<Rightarrow> f32" where
  "fmul (Finite s m) (Finite t n) = f32_round (s \<noteq> t) (m * n)"
| "fmul (Infinity s) (Infinity t) = Infinity (s \<noteq> t)"
| "fmul (Infinity s) (Finite t n) = (if n = 0 then NaN else Infinity (s \<noteq> t))"
| "fmul (Finite s m) (Infinity t) = (if m = 0 then NaN else Infinity (s \<noteq> t))"
| "fmul _ _ = NaN"

fun fdiv :: "f32 \<Rightarrow> f32 \<Rightarrow> f32" where
  "fdiv (Finite s m) (Finite t n) =
     (if n = 0 then (if m = 0 then NaN else Infinity (s \<noteq> t))
      else f32_round (s \<noteq> t) (m / n))"
| "fdiv (Infinity s) (Infinity t) = NaN"
| "fdiv (Infinity s) (Finite t n) = Infinity (s \<noteq> t)"
| "fdiv (Finite s m) (Infinity t) = Finite (s \<noteq> t) 0"
| "fdiv _ _ = NaN"

fun fge :: "f32 \<Rightarrow> f32 \<Rightarrow> bool" where
  \<comment> \<open>\<^verbatim>\<open>a >= b\<close>: false as soon as one side is a NaN\<close>
  "fge NaN _ = False"
| "fge _ NaN = False"
| "fge (Infinity s) (Infinity t) = (s \<longrightarrow> t)"
| "fge (Infinity s) (Finite t n) = (\<not> s)"
| "fge (Finite s m) (Infinity t) = t"
| "fge (Finite s m) (Finite t n) = (val (Finite t n) \<le> val (Finite s m))"

section \<open>Animation clock\<close>

text \<open>
  The locals \<^verbatim>\<open>time\<close>, \<^verbatim>\<open>prev_time\<close>, \<^verbatim>\<open>curr_frame\<close> and \<^verbatim>\<open>curr_frame_changed\<close> of
  \<^verbatim>\<open>main\<close>.  \<^verbatim>\<open>curr_frame\<close> is a C++ \<^verbatim>\<open>int\<close>; it is modelled as an unbounded integer and
  shown below to stay under 15, far from any overflow.
\<close>

record clock =
  time :: f32
  prev_time :: f32
  curr_frame :: int
  curr_frame_changed :: bool

definition clock_init :: clock where
  "clock_init = \<lparr>time = Finite False 0, prev_time = Finite False 0,
                  curr_frame = 0, curr_frame_changed = False\<rparr>"

definition tick_period :: f32 where
  \<comment> \<open>the literal \<^verbatim>\<open>0.05f\<close>\<close>
  "tick_period = f32_of_rat (1 / 20)"

definition clock_step :: "f32 \<Rightarrow> clock \<Rightarrow> clock" where
  \<comment> \<open>\<^verbatim>\<open>time += dt\<close>, then the \<^verbatim>\<open>if (time - prev_time >= 0.05f)\<close> of the loop\<close>
  "clock_step dt c =
     (let c1 = c\<lparr>time := fadd (time c) dt\<rparr>
      in if fge (fsub (time c1) (prev_time c1)) tick_period
         then let c2 = c1\<lparr>prev_time := time c1\<rparr>;
                  c3 = c2\<lparr>curr_frame := curr_frame c2 + 1\<rparr>;
                  c4 = c3\<lparr>curr_frame_changed := True\<rparr>
              in if 15 \<le> curr_frame c4 then c4\<lparr>curr_frame := 0\<rparr> else c4
         else c1\<lparr>curr_frame_changed := False\<rparr>)"

fun run_clock :: "clock \<Rightarrow> f32 list \<Rightarrow> clock" where
  \<comment> \<open>the clock over successive iterations, one \<^verbatim>\<open>dt\<close> each\<close>
  "run_clock c [] = c"
| "run_clock c (dt # dts) = run_clock (clock_step dt c) dts"

fun clock_trace :: "clock \<Rightarrow> f32 list \<Rightarrow> clock list" where
  \<comment> \<open>the clock at the end of each of these iterations\<close>
  "clock_trace c [] = []"
| "clock_trace c (dt # dts) = clock_step dt c # clock_trace (clock_step dt c) dts"

fun advances :: "clock \<Rightarrow> f32 list \<Rightarrow> nat" where
  \<comment> \<open>in how many of these iterations the test \<^verbatim>\<open>time - prev_time >= 0.05f\<close> holds, with
      \<^verbatim>\<open>time\<close> already increased by the \<^verbatim>\<open>dt\<close> of the iteration\<close>
  "advances c [] = 0"
| "advances c (dt # dts) =
     (if fge (fsub (fadd (time c) dt) (prev_time c)) tick_period then 1 else 0) +
     advances (clock_step dt c) dts"

section \<open>Projection matrix\<close>

definition near :: f32 where "near = f32_of_rat (1 / 10)"

definition far :: f32 where "far = f32_of_rat 100"

definition top_f32 :: f32 where
  \<comment> \<open>the local \<^verbatim>\<open>top\<close>\<close>
  "top_f32 = near"

definition right :: "int \<Rightarrow> int \<Rightarrow> f32" where
  \<comment> \<open>\<^verbatim>\<open>(top * width) / height\<close>, the two \<^verbatim>\<open>int\<close>s converted to \<^verbatim>\<open>float\<close>\<close>
  "right width height = fdiv (fmul top_f32 (f32_of_int width)) (f32_of_int height)"

definition projection :: "int \<Rightarrow> int \<Rightarrow> f32 list" where
  \<comment> \<open>the 16 entries of \<^verbatim>\<open>float projection[16]\<close>, row by row\<close>
  "projection width height =
     [fdiv near (right width height), Finite False 0, Finite False 0, Finite False 0,
      Finite False 0, fdiv near top_f32, Finite False 0, Finite False 0,
      Finite False 0, Finite False 0, fdiv (fneg (fadd far near)) (fsub far near),
        fdiv (fmul (fmul (fneg (f32_of_rat 2)) far) near) (fsub far near),
      Finite False 0, Finite False 0, fneg (f32_of_rat 1), Finite False 0]"

definition entry :: "f32 list \<Rightarrow> nat \<Rightarrow> nat \<Rightarrow> f32" where
  \<comment> \<open>entry (row, column) of a row-major 4 by 4 matrix\<close>
  "entry m i j = m ! (4 * i + j)"

section \<open>Textures\<close>

type_synonym u8 = "8 word"
type_synonym u32 = "32 word"

datatype byte_order = LittleEndian | BigEndian

definition word_bytes :: "byte_order \<Rightarrow> u32 \<Rightarrow> u8 list" where
  \<comment> \<open>the four bytes of a \<^verbatim>\<open>std::uint32_t\<close> in memory, lowest address first\<close>
  "word_bytes bo w =
     (let lsb_first = [ucast w, ucast (drop_bit 8 w), ucast (drop_bit 16 w), ucast (drop_bit 24 w)]
      in case bo of LittleEndian \<Rightarrow> lsb_first | BigEndian \<Rightarrow> rev lsb_first)"

definition vector_bytes :: "byte_order \<Rightarrow> u32 list \<Rightarrow> u8 list" where
  \<comment> \<open>what \<^verbatim>\<open>data()\<close> of a \<^verbatim>\<open>std::vector<std::uint32_t>\<close> points to, read as bytes\<close>
  "vector_bytes bo ws = concat (map (word_bytes bo) ws)"

datatype gl_format = GL_RGBA8 | GL_RGB

record image =
  image_format :: gl_format
  image_width :: nat
  image_height :: nat
  image_data :: "u8 list"

type_synonym texture = "nat \<Rightarrow> image option"
  \<comment> \<open>mipmap level to image\<close>

type_synonym filter = "image \<Rightarrow> nat \<Rightarrow> image"
  \<comment> \<open>what \<^verbatim>\<open>glGenerateMipmap\<close> derives from level 0 for a level above it; OpenGL leaves the
      filter to the implementation, so it is a parameter\<close>

definition texel :: "image \<Rightarrow> nat \<Rightarrow> nat \<Rightarrow> (u8 \<times> u8 \<times> u8 \<times> u8) option" where
  \<comment> \<open>red, green, blue and alpha of the texel in column \<open>x\<close> of row \<open>y\<close> of an image given as
      \<^verbatim>\<open>GL_RGBA\<close>, \<^verbatim>\<open>GL_UNSIGNED_BYTE\<close> data: rows one after the other, four bytes a texel\<close>
  "texel img x y =
     (let i = 4 * (y * image_width img + x); d = image_data img
      in if x < image_width img \<and> y < image_height img \<and> i + 3 < length d
         then Some (d ! i, d ! (i + 1), d ! (i + 2), d ! (i + 3)) else None)"

function inner_loop :: "nat \<Rightarrow> nat \<Rightarrow> nat \<Rightarrow> u8 list \<Rightarrow> u8 list" where
  \<comment> \<open>\<^verbatim>\<open>for (int y = 0; y < img_h; y++)\<close> from \<open>y\<close> on; \<open>x\<close> and \<open>y\<close> never go negative\<close>
  "inner_loop img_h x y color =
     (if y < img_h
      then let res = (int (x + y) mod 2) * 255
           in inner_loop img_h x (y + 1)
                (color @ [word_of_int res, word_of_int res, word_of_int res, 255])
      else color)"
  by pat_completeness auto
termination
  by (relation "measure (\<lambda>(img_h, x, y, color). img_h - y)") auto

function outer_loop :: "nat \<Rightarrow> nat \<Rightarrow> nat \<Rightarrow> u8 list \<Rightarrow> u8 list" where
  \<comment> \<open>\<^verbatim>\<open>for (int x = 0; x < img_w; x++)\<close> from \<open>x\<close> on\<close>
  "outer_loop img_w img_h x color =
     (if x < img_w then outer_loop img_w img_h (x + 1) (inner_loop img_h x 0 color)
      else color)"
  by pat_completeness auto
termination
  by (relation "measure (\<lambda>(img_w, img_h, x, color). img_w - x)") auto

declare inner_loop.simps [simp del] outer_loop.simps [simp del]

definition img_w :: nat where "img_w = 1024"

definition img_h :: nat where "img_h = 1024"

definition color :: "u8 list" where
  \<comment> \<open>the vector \<^verbatim>\<open>color\<close> once both loops are done\<close>
  "color = outer_loop img_w img_h 0 []"

definition red_mipmap :: "u32 list" where
  "red_mipmap = replicate (512 * 512) 0xff0000ff"

definition green_mipmap :: "u32 list" where
  "green_mipmap = replicate (256 * 256) 0xffff0000"

definition blue_mipmap :: "u32 list" where
  "blue_mipmap = replicate (128 * 128) 0xff00ff00"

section \<open>OpenGL state\<close>

text \<open>
  The part of the context that the program writes and that its textures and samplers
  depend on.  Buffers, shaders, filter parameters, the unpack alignment and the
  framebuffer are left out, and so is the view matrix, whose entries are cosines and sines.
\<close>

record gl_state =
  viewport :: "int \<times> int \<times> int \<times> int"
  active_texture :: nat
  texture_binding :: "nat \<Rightarrow> nat"
  textures :: "nat \<Rightarrow> texture"
  next_texture :: nat
  uniform_int :: "int \<Rightarrow> int"
  uniform_matrix :: "int \<Rightarrow> f32 list"

definition glViewport :: "int \<Rightarrow> int \<Rightarrow> int \<Rightarrow> int \<Rightarrow> gl_state \<Rightarrow> gl_state" where
  \<comment> \<open>a negative size is an error and leaves the viewport as it is\<close>
  "glViewport x y w h g = (if w < 0 \<or> h < 0 then g else g\<lparr>viewport := (x, y, w, h)\<rparr>)"

definition glGenTextures :: "gl_state \<Rightarrow> nat \<times> gl_state" where
  \<comment> \<open>one unused, non-zero name\<close>
  "glGenTextures g = (next_texture g, g\<lparr>next_texture := Suc (next_texture g)\<rparr>)"

definition glActiveTexture :: "nat \<Rightarrow> gl_state \<Rightarrow> gl_state" where
  "glActiveTexture unit g = g\<lparr>active_texture := unit\<rparr>"

definition glBindTexture :: "nat \<Rightarrow> gl_state \<Rightarrow> gl_state" where
  \<comment> \<open>target \<^verbatim>\<open>GL_TEXTURE_2D\<close> of the active unit\<close>
  "glBindTexture name g =
     g\<lparr>texture_binding := (texture_binding g)(active_texture g := name)\<rparr>"

definition bound_texture :: "gl_state \<Rightarrow> nat" where
  "bound_texture g = texture_binding g (active_texture g)"

definition glTexImage2D ::
    "nat \<Rightarrow> gl_format \<Rightarrow> nat \<Rightarrow> nat \<Rightarrow> u8 list \<Rightarrow> gl_state \<Rightarrow> gl_state" where
  \<comment> \<open>a whole level of the texture bound to the active unit\<close>
  "glTexImage2D level fmt w h pixels g =
     (let n = bound_texture g;
          img = \<lparr>image_format = fmt, image_width = w, image_height = h, image_data = pixels\<rparr>
      in g\<lparr>textures := (textures g)(n := (textures g n)(level \<mapsto> img))\<rparr>)"

definition glTexSubImage2D :: "nat \<Rightarrow> nat \<Rightarrow> nat \<Rightarrow> u8 list \<Rightarrow> gl_state \<Rightarrow> gl_state" where
  \<comment> \<open>with offsets 0, as the program calls it: the pixels of an existing level of the same
      size are replaced; anything else is an error and changes nothing\<close>
  "glTexSubImage2D level w h pixels g =
     (let n = bound_texture g
      in case textures g n level of
           None \<Rightarrow> g
         | Some img \<Rightarrow>
             if image_width img = w \<and> image_height img = h
             then g\<lparr>textures := (textures g)(n := (textures g n)(level \<mapsto> img\<lparr>image_data := pixels\<rparr>))\<rparr>
             else g)"

definition glGenerateMipmap :: "filter \<Rightarrow> gl_state \<Rightarrow> gl_state" where
  \<comment> \<open>every level above 0, down to 1 by 1, is replaced by what the filter derives from level 0\<close>
  "glGenerateMipmap mip g =
     (let n = bound_texture g
      in case textures g n 0 of
           None \<Rightarrow> g
         | Some base \<Rightarrow>
             g\<lparr>textures := (textures g)(n := (\<lambda>level.
                 if level = 0 then Some base
                 else if level \<le> ilog2 (max (image_width base) (image_height base))
                 then Some (mip base level) else None))\<rparr>)"

definition glUniform1i :: "int \<Rightarrow> int \<Rightarrow> gl_state \<Rightarrow> gl_state" where
  \<comment> \<open>location -1 is silently ignored\<close>
  "glUniform1i location v g =
     (if location = - 1 then g else g\<lparr>uniform_int := (uniform_int g)(location := v)\<rparr>)"

definition glUniformMatrix4fv :: "int \<Rightarrow> f32 list \<Rightarrow> gl_state \<Rightarrow> gl_state" where
  "glUniformMatrix4fv location m g =
     (if location = - 1 then g else g\<lparr>uniform_matrix := (uniform_matrix g)(location := m)\<rparr>)"


section \<open>The environment of the process\<close>

text \<open>
  What \<^verbatim>\<open>main\<close> gets from SDL, GLEW, the driver and the header \<^verbatim>\<open>test_image.h\<close>.
  A \<open>None\<close> for GLEW, a shader or the program means success, \<open>Some\<close> carries the text of
  the error (\<^verbatim>\<open>glewGetErrorString\<close>, the info log).  The header that declares the frame
  table \<^verbatim>\<open>test_image_data\<close> is not among the sources, so the table is a parameter;
  where its length matters, a theorem assumes the 15 frames that the description of the
  program gives it.
\<close>

record env =
  SDL_Init :: int
  SDL_GetError :: string
  SDL_CreateWindow :: bool
  SDL_GetWindowSize :: "int \<times> int"
  SDL_GL_CreateContext :: bool
  glewInit :: "string option"
  GLEW_VERSION_3_3 :: bool
  vertex_shader_log :: "string option"
  fragment_shader_log :: "string option"
  program_log :: "string option"
  glGetUniformLocation :: "string \<Rightarrow> int"
  mipmap_filter :: filter
  host_byte_order :: byte_order
  test_image_data :: "u8 list list"

datatype failure = Thrown string | OutOfBounds

definition frame_data :: "u8 list list \<Rightarrow> int \<Rightarrow> failure + u8 list" where
  \<comment> \<open>\<^verbatim>\<open>test_image_data[i]\<close>; an index outside the table has no defined behaviour\<close>
  "frame_data table i =
     (if 0 \<le> i \<and> i < int (length table) then Inr (table ! nat i) else Inl OutOfBounds)"

definition create_shader :: "string option \<Rightarrow> failure + unit" where
  "create_shader status =
     (case status of None \<Rightarrow> Inr ()
      | Some info_log \<Rightarrow> Inl (Thrown (''Shader compilation failed: '' @ info_log)))"

definition create_program :: "string option \<Rightarrow> failure + unit" where
  "create_program status =
     (case status of None \<Rightarrow> Inr ()
      | Some info_log \<Rightarrow> Inl (Thrown (''Program linkage failed: '' @ info_log)))"

definition sdl2_fail :: "env \<Rightarrow> string \<Rightarrow> failure" where
  "sdl2_fail e message = Thrown (message @ SDL_GetError e)"

definition glew_fail :: "string \<Rightarrow> string \<Rightarrow> failure" where
  "glew_fail message error = Thrown (message @ error)"

section \<open>Set-up\<close>

definition gl_context :: "int \<times> int \<Rightarrow> gl_state" where
  \<comment> \<open>a new context: viewport of the window, unit 0 active, the default texture 0 bound
      everywhere, no texture image, every uniform 0\<close>
  "gl_context wh =
     \<lparr>viewport = (0, 0, fst wh, snd wh), active_texture = 0, texture_binding = (\<lambda>_. 0),
      textures = (\<lambda>_ _. None), next_texture = 1, uniform_int = (\<lambda>_. 0),
      uniform_matrix = (\<lambda>_. replicate 16 (Finite False 0))\<rparr>"

definition build_checkerboard :: "env \<Rightarrow> gl_state \<Rightarrow> nat \<times> gl_state" where
  \<comment> \<open>from \<^verbatim>\<open>GLuint texture\<close> to the upload of \<^verbatim>\<open>blue_mipmap\<close>\<close>
  "build_checkerboard e g =
     (let (texture, g) = glGenTextures g;
          g = glBindTexture texture g;
          g = glTexImage2D 0 GL_RGBA8 img_w img_h color g;
          g = glGenerateMipmap (mipmap_filter e) g;
          g = glTexImage2D 1 GL_RGBA8 512 512 (vector_bytes (host_byte_order e) red_mipmap) g;
          g = glTexImage2D 2 GL_RGBA8 256 256 (vector_bytes (host_byte_order e) green_mipmap) g;
          g = glTexImage2D 3 GL_RGBA8 128 128 (vector_bytes (host_byte_order e) blue_mipmap) g
      in (texture, g))"

definition checkerboard_level :: "env \<Rightarrow> gl_state \<Rightarrow> nat \<Rightarrow> image option" where
  \<comment> \<open>a mipmap level of the checkerboard texture once it is built\<close>
  "checkerboard_level e g level =
     (case build_checkerboard e g of (name, g') \<Rightarrow> textures g' name level)"

definition level_texel :: "image option \<Rightarrow> nat \<Rightarrow> nat \<Rightarrow> (u8 \<times> u8 \<times> u8 \<times> u8) option" where
  "level_texel level x y = (case level of None \<Rightarrow> None | Some img \<Rightarrow> texel img x y)"

definition build_animated :: "env \<Rightarrow> gl_state \<Rightarrow> failure + nat \<times> gl_state" where
  \<comment> \<open>from \<^verbatim>\<open>GLuint tex_img\<close> to its \<^verbatim>\<open>glGenerateMipmap\<close>\<close>
  "build_animated e g =
     (let (tex_img, g) = glGenTextures g;
          g = glBindTexture tex_img g
      in case frame_data (test_image_data e) 0 of
           Inl f \<Rightarrow> Inl f
         | Inr pixels \<Rightarrow>
             let g = glTexImage2D 0 GL_RGB 498 498 pixels g;
                 g = glGenerateMipmap (mipmap_filter e) g
             in Inr (tex_img, g))"

section \<open>The loop\<close>

text \<open>
  The locals of \<^verbatim>\<open>main\<close> that are set once, before the loop, and that the loop reads.
\<close>

record handles =
  projection_location :: int
  tex_location :: int
  tex_img_location :: int
  texture :: nat
  tex_img :: nat


datatype window_event = SDL_WINDOWEVENT_RESIZED | SDL_WINDOWEVENT_other

datatype event =
    SDL_QUIT
  | SDL_WINDOWEVENT window_event int int
  | SDL_KEYDOWN int
  | SDL_KEYUP int
  | SDL_other

record app =
  width :: int
  height :: int
  running :: bool
  button_down :: "int \<rightharpoonup> bool"
  clk :: clock
  gl :: gl_state

fun handle_event :: "event \<Rightarrow> app \<Rightarrow> app" where
  "handle_event SDL_QUIT a = a\<lparr>running := False\<rparr>"
| "handle_event (SDL_WINDOWEVENT SDL_WINDOWEVENT_RESIZED data1 data2) a =
     (let a = a\<lparr>width := data1\<rparr>;
          a = a\<lparr>height := data2\<rparr>
      in a\<lparr>gl := glViewport 0 0 (width a) (height a) (gl a)\<rparr>)"
| "handle_event (SDL_WINDOWEVENT SDL_WINDOWEVENT_other data1 data2) a = a"
| "handle_event (SDL_KEYDOWN key) a = a\<lparr>button_down := (button_down a)(key \<mapsto> True)\<rparr>"
| "handle_event (SDL_KEYUP key) a = a\<lparr>button_down := (button_down a)(key \<mapsto> False)\<rparr>"
| "handle_event SDL_other a = a"

fun poll_events :: "event list \<Rightarrow> app \<Rightarrow> app" where
  \<comment> \<open>the \<^verbatim>\<open>for\<close> over \<^verbatim>\<open>SDL_PollEvent\<close>: every pending event, in order\<close>
  "poll_events [] a = a"
| "poll_events (ev # evs) a = poll_events evs (handle_event ev a)"

definition draw :: "env \<Rightarrow> handles \<Rightarrow> app \<Rightarrow> failure + app" where
  \<comment> \<open>from \<^verbatim>\<open>glClear\<close> to \<^verbatim>\<open>SDL_GL_SwapWindow\<close>\<close>
  "draw e h a =
     (let g = gl a;
          g = glUniformMatrix4fv (projection_location h) (projection (width a) (height a)) g;
          g = glUniform1i (tex_location h) 0 g;
          g = glUniform1i (tex_img_location h) 1 g;
          g = glActiveTexture 0 g;
          g = glBindTexture (texture h) g;
          g = glActiveTexture 1 g;
          g = glBindTexture (tex_img h) g
      in if curr_frame_changed (clk a)
         then case frame_data (test_image_data e) (curr_frame (clk a)) of
                Inl f \<Rightarrow> Inl f
              | Inr pixels \<Rightarrow>
                  let g = glTexSubImage2D 0 498 498 pixels g;
                      g = glGenerateMipmap (mipmap_filter e) g
                  in Inr (a\<lparr>gl := g\<rparr>)
         else Inr (a\<lparr>gl := g\<rparr>))"

datatype loop_state = Left app | Looping app

fun main_loop :: "env \<Rightarrow> handles \<Rightarrow> (event list \<times> f32) list \<Rightarrow> app \<Rightarrow> failure + loop_state" where
  \<comment> \<open>\<^verbatim>\<open>while (running)\<close>, one element of the list for each iteration: the events pending at
      its start and the \<^verbatim>\<open>dt\<close> it measures.  \<open>Left\<close>: the loop was left through
      \<^verbatim>\<open>break\<close>; \<open>Looping\<close>: it is still running when the list ends\<close>
  "main_loop e h [] a = Inr (Looping a)"
| "main_loop e h ((events, dt) # rest) a =
     (let a = poll_events events a
      in if \<not> running a then Inr (Left a)
         else let a = a\<lparr>clk := clock_step dt (clk a)\<rparr>
              in case draw e h a of
                   Inl f \<Rightarrow> Inl f
                 | Inr a \<Rightarrow> main_loop e h rest a)"

section \<open>The process\<close>

definition startup :: "env \<Rightarrow> failure + handles \<times> app" where
  \<comment> \<open>\<^verbatim>\<open>main\<close> up to \<^verbatim>\<open>bool running = true\<close>; the first failing step throws\<close>
  "startup e =
     (if SDL_Init e \<noteq> 0 then Inl (sdl2_fail e ''SDL_Init: '')
      else if \<not> SDL_CreateWindow e then Inl (sdl2_fail e ''SDL_CreateWindow: '')
      else if \<not> SDL_GL_CreateContext e then Inl (sdl2_fail e ''SDL_GL_CreateContext: '')
      else case glewInit e of
        Some error \<Rightarrow> Inl (glew_fail ''glewInit: '' error)
      | None \<Rightarrow>
          if \<not> GLEW_VERSION_3_3 e then Inl (Thrown ''OpenGL 3.3 is not supported'')
          else case create_shader (vertex_shader_log e) of
            Inl f \<Rightarrow> Inl f
          | Inr _ \<Rightarrow>
              case create_shader (fragment_shader_log e) of
                Inl f \<Rightarrow> Inl f
              | Inr _ \<Rightarrow>
                  case create_program (program_log e) of
                    Inl f \<Rightarrow> Inl f
                  | Inr _ \<Rightarrow>
                      let (name, g) = build_checkerboard e (gl_context (SDL_GetWindowSize e))
                      in case build_animated e g of
                           Inl f \<Rightarrow> Inl f
                         | Inr (name_img, g) \<Rightarrow>
                             Inr (\<lparr>projection_location = glGetUniformLocation e ''projection'',
                                   tex_location = glGetUniformLocation e ''tex'',
                                   tex_img_location = glGetUniformLocation e ''tex'',
                                   texture = name, tex_img = name_img\<rparr>,
                                  \<lparr>width = fst (SDL_GetWindowSize e),
                                   height = snd (SDL_GetWindowSize e),
                                   running = True, button_down = Map.empty,
                                   clk = clock_init, gl = g\<rparr>))"

definition EXIT_FAILURE :: int where
  \<comment> \<open>the macro of \<^verbatim>\<open><cstdlib>\<close>; 1 on the platforms SDL2 runs on\<close>
  "EXIT_FAILURE = 1"

definition endl :: string where
  "endl = [CHR 0x0A]"

datatype outcome = Exit int string | Undefined | Running

definition main :: "env \<Rightarrow> (event list \<times> f32) list \<Rightarrow> outcome" where
  \<comment> \<open>the exit code and what was written to \<^verbatim>\<open>std::cerr\<close>.  \<open>Running\<close>: the loop has not
      been left when the list of iterations ends; \<open>Undefined\<close>: the frame table was
      indexed outside its bounds\<close>
  "main e iterations =
     (case (case startup e of Inl f \<Rightarrow> Inl f | Inr (h, a) \<Rightarrow> main_loop e h iterations a) of
        Inl (Thrown what) \<Rightarrow> Exit EXIT_FAILURE (what @ endl)
      | Inl OutOfBounds \<Rightarrow> Undefined
      | Inr (Looping a) \<Rightarrow> Running
      | Inr (Left a) \<Rightarrow> Exit 0 [])"



definition env0 :: env where
  \<comment> \<open>an environment in which every step of the set-up succeeds: a little-endian host,
      uniforms located in the order of their declaration, a filter that keeps level 0, and
      a table of 15 (here empty) frames\<close>
  "env0 =
     \<lparr>SDL_Init = 0, SDL_GetError = [], SDL_CreateWindow = True,
      SDL_GetWindowSize = (800, 600), SDL_GL_CreateContext = True, glewInit = None,
      GLEW_VERSION_3_3 = True, vertex_shader_log = None, fragment_shader_log = None,
      program_log = None,
      glGetUniformLocation = (\<lambda>name.
        if name = ''view'' then 0 else if name = ''projection'' then 1
        else if name = ''tex'' then 2 else if name = ''img'' then 3 else - 1),
      mipmap_filter = (\<lambda>base level. base), host_byte_order = LittleEndian,
      test_image_data = replicate 15 []\<rparr>"

section \<open>The rounding is to nearest\<close>

text \<open>
  \<open>exponent_of\<close> finds the binade of a positive magnitude, and \<open>round_mag\<close> returns a
  multiple of the spacing of that binade that is at most half a spacing away; on a tie
  \<open>round_half_even\<close> takes the even multiple.
\<close>

lemma ilog2_bounds: "0 < n \<Longrightarrow> 2 ^ ilog2 n \<le> n \<and> n < 2 ^ Suc (ilog2 n)"
proof (induction n rule: ilog2.induct)
  case (1 n)
  show ?case
  proof (cases "n < 2")
    case True
    with 1 have "n = 1" by simp
    then show ?thesis by (simp add: ilog2.simps)
  next
    case False
    then have "0 < n div 2" by simp
    with 1 False have IH: "2 ^ ilog2 (n div 2) \<le> n div 2" "n div 2 < 2 ^ Suc (ilog2 (n div 2))"
      by simp_all
    have unfold: "ilog2 n = Suc (ilog2 (n div 2))"
      using False by (subst ilog2.simps) simp
    have "2 * 2 ^ ilog2 (n div 2) \<le> 2 * (n div 2)"
      using IH(1) by simp
    also have "\<dots> \<le> n" by simp
    finally have low: "2 ^ ilog2 n \<le> n"
      by (simp add: unfold)
    have "n < 2 * (n div 2) + 2" by presburger
    also have "\<dots> \<le> 2 * 2 ^ Suc (ilog2 (n div 2))"
      using IH(2) by simp
    finally have "n < 2 ^ Suc (ilog2 n)"
      by (simp add: unfold)
    with low show ?thesis by simp
  qed
qed

lemma pow2_nat: "pow2 (int k) = 2 ^ k"
  by (simp add: pow2_def)

lemma pow2_neg: "pow2 (- int k) = 1 / 2 ^ k"
  by (simp add: pow2_def)

lemma pow2_pos: "0 < pow2 k"
  by (simp add: pow2_def)

lemma exponent_of_bounds:
  assumes "0 < m"
  shows "pow2 (exponent_of m) \<le> m \<and> m < pow2 (exponent_of m + 1)"
proof (cases "1 \<le> m")
  case True
  define n where "n = nat \<lfloor>m\<rfloor>"
  have n: "0 < n" "rat_of_nat n \<le> m" "m < rat_of_nat n + 1"
    using True by (simp_all add: n_def) linarith+
  from ilog2_bounds [OF n(1)] have "2 ^ ilog2 n \<le> n" and "Suc n \<le> 2 ^ Suc (ilog2 n)"
    by simp_all
  from this [THEN of_nat_mono, where ?'a = rat]
  have "2 ^ ilog2 n \<le> rat_of_nat n" and "rat_of_nat n + 1 \<le> 2 ^ Suc (ilog2 n)"
    by simp_all
  with n(2,3) have "2 ^ ilog2 n \<le> m" "m < 2 ^ Suc (ilog2 n)"
    by linarith+
  moreover have "exponent_of m = int (ilog2 n)"
    using True by (simp add: exponent_of_def n_def)
  moreover have "int (ilog2 n) + 1 = int (Suc (ilog2 n))"
    by simp
  ultimately show ?thesis
    by (simp only: pow2_nat)
next
  case False
  define c where "c = \<lceil>1 / m\<rceil>"
  define n where "n = nat (c - 1)"
  have inv: "1 < 1 / m"
    using False assms by simp
  have c: "1 / m \<le> of_int c" "of_int c - 1 < 1 / m"
    unfolding c_def by linarith+
  have "1 < c"
    using inv c(1) by linarith
  then have n: "0 < n" "rat_of_nat n = of_int c - 1"
    by (simp_all add: n_def)
  from ilog2_bounds [OF n(1)] have "2 ^ ilog2 n \<le> n" and "Suc n \<le> 2 ^ Suc (ilog2 n)"
    by simp_all
  from this [THEN of_nat_mono, where ?'a = rat]
  have "2 ^ ilog2 n \<le> rat_of_nat n" and "rat_of_nat n + 1 \<le> 2 ^ Suc (ilog2 n)"
    by simp_all
  with n(2) c have up: "1 / m \<le> 2 ^ Suc (ilog2 n)" and low: "2 ^ ilog2 n < 1 / m"
    by linarith+
  have "1 / 2 ^ Suc (ilog2 n) \<le> m"
    using up assms by (simp add: field_simps)
  moreover have "m < 1 / 2 ^ ilog2 n"
    using low assms by (simp add: field_simps)
  moreover have "exponent_of m = - int (Suc (ilog2 n))"
    using False by (simp add: exponent_of_def n_def c_def)
  moreover have "- int (Suc (ilog2 n)) + 1 = - int (ilog2 n)"
    by simp
  ultimately show ?thesis
    by (simp only: pow2_neg)
qed

lemma round_half_even_nearest: "\<bar>of_int (round_half_even q) - q\<bar> \<le> 1 / 2"
proof -
  have "of_int \<lfloor>q\<rfloor> \<le> q" "q < of_int \<lfloor>q\<rfloor> + 1"
    by linarith+
  then show ?thesis
    by (auto simp: round_half_even_def Let_def abs_le_iff)
qed

lemma round_mag_nearest:
  assumes "0 < m" and "round_mag m = Some r"
  shows "\<exists>k. r = of_int k * pow2 (max (exponent_of m) (- 126) - 23) \<and>
             \<bar>r - m\<bar> \<le> pow2 (max (exponent_of m) (- 126) - 23) / 2"
proof -
  define u where "u = pow2 (max (exponent_of m) (- 126) - 23)"
  have u: "0 < u"
    by (simp add: u_def pow2_pos)
  have r: "r = of_int (round_half_even (m / u)) * u"
    using assms by (auto simp: round_mag_def Let_def u_def split: if_splits)
  have "\<bar>of_int (round_half_even (m / u)) - m / u\<bar> \<le> 1 / 2"
    by (rule round_half_even_nearest)
  then have "\<bar>of_int (round_half_even (m / u)) - m / u\<bar> * u \<le> 1 / 2 * u"
    using u by (intro mult_right_mono) simp_all
  moreover have "(of_int (round_half_even (m / u)) - m / u) * u = r - m"
    using u by (simp add: r field_simps)
  then have "\<bar>of_int (round_half_even (m / u)) - m / u\<bar> * u = \<bar>r - m\<bar>"
    using u by (metis abs_mult abs_of_pos)
  ultimately have "\<bar>r - m\<bar> \<le> u / 2"
    by simp
  with r show ?thesis
    unfolding u_def by blast
qed

section \<open>Evaluating the arithmetic on numerals\<close>

lemma ilog2_double: "0 < n \<Longrightarrow> ilog2 (2 * n) = Suc (ilog2 n)"
  by (subst ilog2.simps) simp

lemma ilog2_double_Suc: "0 < n \<Longrightarrow> ilog2 (2 * n + 1) = Suc (ilog2 n)"
  by (subst ilog2.simps) simp

lemma ilog2_numeral [simp]:
  "ilog2 0 = 0" "ilog2 1 = 0" "ilog2 (Suc 0) = 0"
  "ilog2 (numeral (Num.Bit0 k)) = Suc (ilog2 (numeral k))"
  "ilog2 (numeral (Num.Bit1 k)) = Suc (ilog2 (numeral k))"
  "ilog2 (numeral Num.One) = 0"
  using ilog2_double [of "numeral k"] ilog2_double_Suc [of "numeral k"]
  by (simp_all add: ilog2.simps [of 0] ilog2.simps [of 1] ilog2.simps [of "Suc 0"]
        numeral_Bit0 [of k] numeral_Bit1 [of k] mult_2)

lemma floor_numeral_divide [simp]:
  "\<lfloor>numeral a / numeral b :: rat\<rfloor> = numeral a div numeral b"
  using floor_divide_of_int_eq [of "numeral a" "numeral b", where ?'a = rat] by simp

lemma ceiling_numeral_divide [simp]:
  "\<lceil>numeral a / numeral b :: rat\<rceil> = - (- numeral a div numeral b)"
  using floor_divide_of_int_eq [of "- numeral a" "numeral b", where ?'a = rat]
  by (simp add: ceiling_def)

lemmas f32_eval =
  f32_of_rat_def f32_of_int_def f32_round_def round_mag_def exponent_of_def
  pow2_def round_half_even_def Let_def fsub_def

section \<open>Properties of the animation clock\<close>

lemma run_clock_append: "run_clock c (xs @ ys) = run_clock (run_clock c xs) ys"
  by (induction xs arbitrary: c) auto

lemma clock_step_frame:
  "curr_frame (clock_step dt c) =
     (if fge (fsub (fadd (time c) dt) (prev_time c)) tick_period
      then (if 15 \<le> curr_frame c + 1 then 0 else curr_frame c + 1) else curr_frame c)"
  by (simp add: clock_step_def Let_def)

lemma clock_step_changed:
  "curr_frame_changed (clock_step dt c) = fge (fsub (fadd (time c) dt) (prev_time c)) tick_period"
  by (simp add: clock_step_def Let_def)

lemma clock_step_time: "time (clock_step dt c) = fadd (time c) dt"
  by (simp add: clock_step_def Let_def)

lemma clock_step_prev_time:
  "prev_time (clock_step dt c) =
     (if fge (fsub (fadd (time c) dt) (prev_time c)) tick_period then fadd (time c) dt
      else prev_time c)"
  by (simp add: clock_step_def Let_def)

lemma wrap_mod:
  "0 \<le> (k::int) \<Longrightarrow> k < 15 \<Longrightarrow> (if 15 \<le> k + 1 then 0 else k + 1) = (k + 1) mod 15"
  by (cases "k = 14") simp_all

lemma clock_step_range:
  "0 \<le> curr_frame c \<Longrightarrow> curr_frame c < 15 \<Longrightarrow>
     0 \<le> curr_frame (clock_step dt c) \<and> curr_frame (clock_step dt c) < 15"
  by (simp add: clock_step_frame)

lemma run_clock_range:
  "0 \<le> curr_frame c \<Longrightarrow> curr_frame c < 15 \<Longrightarrow>
     0 \<le> curr_frame (run_clock c dts) \<and> curr_frame (run_clock c dts) < 15"
proof (induction dts arbitrary: c)
  case Nil
  then show ?case by simp
next
  case (Cons dt dts)
  from clock_step_range [OF Cons.prems, of dt] show ?case
    by (simp add: Cons.IH)
qed

text \<open>
  Claim C3.  In every iteration the clock adds \<open>dt\<close> to \<open>time\<close> and then advances the
  frame index by exactly one, wrapping from 14 to 0, when \<open>time - prev_time >= 0.05f\<close>,
  and leaves it alone otherwise.  However long the iteration took, the index moves by at
  most one step, and over any run it stays in the range from 0 to 14.
\<close>

theorem clock_advances_by_one:
  assumes "0 \<le> curr_frame c" and "curr_frame c < 15"
  shows "(fge (fsub (fadd (time c) dt) (prev_time c)) tick_period \<longrightarrow>
            curr_frame (clock_step dt c) = (curr_frame c + 1) mod 15 \<and>
            prev_time (clock_step dt c) = time (clock_step dt c)) \<and>
         (\<not> fge (fsub (fadd (time c) dt) (prev_time c)) tick_period \<longrightarrow>
            curr_frame (clock_step dt c) = curr_frame c \<and>
            prev_time (clock_step dt c) = prev_time c) \<and>
         time (clock_step dt c) = fadd (time c) dt \<and>
         (curr_frame (clock_step dt c) = curr_frame c \<or>
          curr_frame (clock_step dt c) = (curr_frame c + 1) mod 15) \<and>
         0 \<le> curr_frame (run_clock c dts) \<and> curr_frame (run_clock c dts) < 15"
proof -
  have wrap: "(if 15 \<le> curr_frame c + 1 then 0 else curr_frame c + 1) = (curr_frame c + 1) mod 15"
    using assms by (rule wrap_mod)
  have frame: "curr_frame (clock_step dt c) =
      (if fge (fsub (fadd (time c) dt) (prev_time c)) tick_period
       then (curr_frame c + 1) mod 15 else curr_frame c)"
    by (simp only: clock_step_frame wrap)
  show ?thesis
    using run_clock_range [OF assms, of dts]
    by (simp add: frame clock_step_time clock_step_prev_time)
qed

lemma one_second: "f32_of_rat 1 = Finite False 1"
  by (simp add: f32_eval)

lemma tick_period_value: "tick_period = Finite False (13421773 / 2 ^ 28)"
  by (simp add: tick_period_def f32_eval)

text \<open>
  An iteration that took a whole second, twenty tick periods, moves the index from 0 to 1.
\<close>

theorem clock_advances_by_one_witness:
  "curr_frame (clock_step (f32_of_rat 1) clock_init) = 1 \<and>
   curr_frame (run_clock clock_init [f32_of_rat 1, f32_of_rat 1]) < 15"
  using clock_advances_by_one [of clock_init "f32_of_rat 1" "[f32_of_rat 1, f32_of_rat 1]"]
  by (simp add: clock_init_def one_second tick_period_value f32_eval)

text \<open>
  Claim C7.  After the clock's update of an iteration, \<open>curr_frame_changed\<close> is true
  exactly when \<open>curr_frame\<close> differs from the value it had at the end of the iteration
  before.
\<close>

theorem frame_changed_iff:
  "curr_frame_changed (clock_step dt c) \<longleftrightarrow> curr_frame (clock_step dt c) \<noteq> curr_frame c"
  by (simp add: clock_step_frame clock_step_changed)

lemma advances_run:
  "0 \<le> curr_frame c \<Longrightarrow> curr_frame c < 15 \<Longrightarrow>
     curr_frame (run_clock c dts) = (curr_frame c + int (advances c dts)) mod 15"
proof (induction dts arbitrary: c)
  case Nil
  then show ?case by simp
next
  case (Cons dt dts)
  let ?c = "clock_step dt c"
  have range: "0 \<le> curr_frame ?c" "curr_frame ?c < 15"
    using clock_step_range [OF Cons.prems, of dt] by simp_all
  let ?t = "fge (fsub (fadd (time c) dt) (prev_time c)) tick_period"
  have step: "curr_frame ?c = (curr_frame c + (if ?t then 1 else 0)) mod 15"
    using wrap_mod [OF Cons.prems] Cons.prems by (simp add: clock_step_frame)
  have "curr_frame (run_clock c (dt # dts)) = (curr_frame ?c + int (advances ?c dts)) mod 15"
    using Cons.IH [OF range] by simp
  also have "\<dots> = (curr_frame c + (if ?t then 1 else 0) + int (advances ?c dts)) mod 15"
    by (subst step) (simp add: mod_add_left_eq)
  finally show ?case
    by (simp add: add.assoc)
qed

subsection \<open>Sixty iterations a second for 0.8 seconds\<close>

lemma clock_trace_append:
  "clock_trace c (xs @ ys) = clock_trace c xs @ clock_trace (run_clock c xs) ys"
  by (induction xs arbitrary: c) auto

lemma advances_append:
  "advances c (xs @ ys) = advances c xs + advances (run_clock c xs) ys"
  by (induction xs arbitrary: c) auto

lemma advances_trace: "advances c dts = length (filter curr_frame_changed (clock_trace c dts))"
  by (induction dts arbitrary: c) (auto simp: clock_step_changed)

lemma replicate_10: "replicate 10 x = [x, x, x, x, x, x, x, x, x, x]"
  by (simp add: numeral_eq_Suc)

lemma replicate_50:
  "replicate 50 x =
     replicate 10 x @ replicate 10 x @ replicate 10 x @ replicate 10 x @ replicate 10 x"
  by (simp add: replicate_add [symmetric])

lemma dt_60fps: "f32_of_rat (2 / 125) = Finite False (8589935 / 2 ^ 29)"
  by (simp add: f32_eval)

lemmas clock_eval = clock_step_def clock_init_def tick_period_def f32_eval

lemma after_10:
  "run_clock clock_init (replicate 10 (f32_of_rat (2 / 125))) =
     \<lparr>time = Finite False (10737419 / 2 ^ 26), prev_time = Finite False (8589935 / 2 ^ 26),
      curr_frame = 2, curr_frame_changed = False\<rparr>"
  "map curr_frame_changed (clock_trace clock_init (replicate 10 (f32_of_rat (2 / 125)))) =
     [False, False, False, True, False, False, False, True, False, False]"
  unfolding replicate_10 dt_60fps by (simp_all add: clock_eval)

lemma after_20:
  "run_clock \<lparr>time = Finite False (10737419 / 2 ^ 26), prev_time = Finite False (8589935 / 2 ^ 26),
      curr_frame = 2, curr_frame_changed = False\<rparr> (replicate 10 (f32_of_rat (2 / 125))) =
     \<lparr>time = Finite False (10737419 / 2 ^ 25), prev_time = Finite False (10737419 / 2 ^ 25),
      curr_frame = 5, curr_frame_changed = True\<rparr>"
  "map curr_frame_changed (clock_trace \<lparr>time = Finite False (10737419 / 2 ^ 26), prev_time = Finite False (8589935 / 2 ^ 26),
      curr_frame = 2, curr_frame_changed = False\<rparr> (replicate 10 (f32_of_rat (2 / 125)))) =
     [False, True, False, False, False, True, False, False, False, True]"
  unfolding replicate_10 dt_60fps by (simp_all add: clock_eval)

lemma after_30:
  "run_clock \<lparr>time = Finite False (10737419 / 2 ^ 25), prev_time = Finite False (10737419 / 2 ^ 25),
      curr_frame = 5, curr_frame_changed = True\<rparr> (replicate 10 (f32_of_rat (2 / 125))) =
     \<lparr>time = Finite False (16106129 / 2 ^ 25), prev_time = Finite False (15032387 / 2 ^ 25),
      curr_frame = 7, curr_frame_changed = False\<rparr>"
  "map curr_frame_changed (clock_trace \<lparr>time = Finite False (10737419 / 2 ^ 25), prev_time = Finite False (10737419 / 2 ^ 25),
      curr_frame = 5, curr_frame_changed = True\<rparr> (replicate 10 (f32_of_rat (2 / 125)))) =
     [False, False, False, True, False, False, False, True, False, False]"
  unfolding replicate_10 dt_60fps by (simp_all add: clock_eval)

lemma after_40:
  "run_clock \<lparr>time = Finite False (16106129 / 2 ^ 25), prev_time = Finite False (15032387 / 2 ^ 25),
      curr_frame = 7, curr_frame_changed = False\<rparr> (replicate 10 (f32_of_rat (2 / 125))) =
     \<lparr>time = Finite False (10737415 / 2 ^ 24), prev_time = Finite False (10737415 / 2 ^ 24),
      curr_frame = 10, curr_frame_changed = True\<rparr>"
  "map curr_frame_changed (clock_trace \<lparr>time = Finite False (16106129 / 2 ^ 25), prev_time = Finite False (15032387 / 2 ^ 25),
      curr_frame = 7, curr_frame_changed = False\<rparr> (replicate 10 (f32_of_rat (2 / 125)))) =
     [False, True, False, False, False, True, False, False, False, True]"
  unfolding replicate_10 dt_60fps by (simp_all add: clock_eval)

lemma after_50:
  "run_clock \<lparr>time = Finite False (10737415 / 2 ^ 24), prev_time = Finite False (10737415 / 2 ^ 24),
      curr_frame = 10, curr_frame_changed = True\<rparr> (replicate 10 (f32_of_rat (2 / 125))) =
     \<lparr>time = Finite False (13421765 / 2 ^ 24), prev_time = Finite False (12884895 / 2 ^ 24),
      curr_frame = 12, curr_frame_changed = False\<rparr>"
  "map curr_frame_changed (clock_trace \<lparr>time = Finite False (10737415 / 2 ^ 24), prev_time = Finite False (10737415 / 2 ^ 24),
      curr_frame = 10, curr_frame_changed = True\<rparr> (replicate 10 (f32_of_rat (2 / 125)))) =
     [False, False, False, True, False, False, False, True, False, False]"
  unfolding replicate_10 dt_60fps by (simp_all add: clock_eval)

lemma scenario_clock:
  "run_clock clock_init (replicate 50 (f32_of_rat (2 / 125))) =
     \<lparr>time = Finite False (13421765 / 2 ^ 24), prev_time = Finite False (12884895 / 2 ^ 24),
      curr_frame = 12, curr_frame_changed = False\<rparr>"
  by (simp only: replicate_50 run_clock_append after_10 after_20 after_30 after_40 after_50)

lemma scenario_flags:
  "map curr_frame_changed (clock_trace clock_init (replicate 50 (f32_of_rat (2 / 125)))) =
     concat (replicate 12 [False, False, False, True]) @ [False, False]"
proof -
  have "map curr_frame_changed (clock_trace clock_init (replicate 50 (f32_of_rat (2 / 125)))) =
     [False, False, False, True, False, False, False, True, False, False] @
     [False, True, False, False, False, True, False, False, False, True] @
     [False, False, False, True, False, False, False, True, False, False] @
     [False, True, False, False, False, True, False, False, False, True] @
     [False, False, False, True, False, False, False, True, False, False]"
    by (simp only: replicate_50 run_clock_append clock_trace_append map_append
          after_10 after_20 after_30 after_40 after_50)
  also have "\<dots> = concat (replicate 12 [False, False, False, True]) @ [False, False]"
    by (simp add: numeral_eq_Suc)
  finally show ?thesis .
qed

text \<open>
  The index is not \<open>floor (t / 0.05) mod 15\<close>.  Fifty iterations of 0.016 seconds each, every one shorter than the tick period, leave the
  index at 12; the formula gives 1 for \<open>t = 0.8\<close>, and 0 for the elapsed time that the
  clock itself has accumulated, which is a little below 0.8.
\<close>

theorem clock_formula_counterexample:
  "fge tick_period (f32_of_rat (2 / 125)) \<and>
   curr_frame (run_clock clock_init (replicate 50 (f32_of_rat (2 / 125)))) = 12 \<and>
   \<lfloor>(4 / 5) / (1 / 20) :: rat\<rfloor> mod 15 = 1 \<and>
   \<lfloor>val (time (run_clock clock_init (replicate 50 (f32_of_rat (2 / 125))))) / (1 / 20)\<rfloor> mod 15 = 0"
proof -
  have "fge tick_period (f32_of_rat (2 / 125))"
    by (simp add: dt_60fps tick_period_value)
  then show ?thesis
    by (simp add: scenario_clock)
qed

text \<open>
  Claim C1, amended.  The index is, modulo 15, the number of iterations in which the test
  \<open>time - prev_time >= 0.05f\<close> held, \<open>time\<close> being the elapsed time with the \<open>dt\<close> of the
  iteration added and \<open>0.05f\<close> the single-precision number 13421773 / 2 ^ 28.  When the
  test holds, \<open>prev_time\<close> becomes the current time, not the tick boundary, so the time
  beyond the boundary is dropped and the index is not a function of the elapsed time
  alone.  An iteration of exactly \<open>0.05f\<close> advances the index, one of the next smaller
  single-precision number does not.  With iterations of 0.016 seconds the test holds in
  every fourth iteration, that is every 0.064 seconds, 12 times in fifty iterations
  (0.8 seconds), and the index is then 12.
\<close>

theorem clock_index_counts_advances:
  "curr_frame (run_clock clock_init dts) = int (advances clock_init dts) mod 15 \<and>
   advances c [] = 0 \<and>
   advances c (dt # dts) =
     (if fge (fsub (fadd (time c) dt) (prev_time c)) tick_period then 1 else 0) +
     advances (clock_step dt c) dts \<and>
   tick_period = Finite False (13421773 / 2 ^ 28) \<and>
   time (clock_step dt c) = fadd (time c) dt \<and>
   prev_time (clock_step dt c) =
     (if fge (fsub (fadd (time c) dt) (prev_time c)) tick_period then fadd (time c) dt
      else prev_time c) \<and>
   curr_frame_changed (clock_step dt c) =
     fge (fsub (fadd (time c) dt) (prev_time c)) tick_period \<and>
   curr_frame (run_clock clock_init [Finite False (13421773 / 2 ^ 28)]) = 1 \<and>
   curr_frame (run_clock clock_init [Finite False (13421772 / 2 ^ 28)]) = 0 \<and>
   advances clock_init (replicate 50 (f32_of_rat (2 / 125))) = 12 \<and>
   curr_frame (run_clock clock_init (replicate 50 (f32_of_rat (2 / 125)))) = 12 \<and>
   map curr_frame_changed (clock_trace clock_init (replicate 50 (f32_of_rat (2 / 125)))) =
     concat (replicate 12 [False, False, False, True]) @ [False, False]"
proof -
  have "curr_frame (run_clock clock_init dts) =
      (curr_frame clock_init + int (advances clock_init dts)) mod 15"
    by (rule advances_run) (simp_all add: clock_init_def)
  then have index: "curr_frame (run_clock clock_init dts) = int (advances clock_init dts) mod 15"
    by (simp add: clock_init_def)
  have count: "advances c [] = 0"
    "advances c (dt # dts) =
       (if fge (fsub (fadd (time c) dt) (prev_time c)) tick_period then 1 else 0) +
       advances (clock_step dt c) dts"
    by simp_all
  have at: "curr_frame (run_clock clock_init [Finite False (13421773 / 2 ^ 28)]) = 1"
    by (simp add: clock_step_def clock_init_def tick_period_value f32_eval)
  have below: "curr_frame (run_clock clock_init [Finite False (13421772 / 2 ^ 28)]) = 0"
    by (simp add: clock_step_def clock_init_def tick_period_value f32_eval)
  have "advances clock_init (replicate 50 (f32_of_rat (2 / 125))) =
      length (filter id (concat (replicate 12 [False, False, False, True]) @ [False, False]))"
    by (simp only: advances_trace filter_map [symmetric, of id, unfolded comp_def id_apply]
        length_map scenario_flags [symmetric])
      (simp add: filter_map comp_def)
  also have "\<dots> = 12"
    by (simp add: numeral_eq_Suc)
  finally have twelve: "advances clock_init (replicate 50 (f32_of_rat (2 / 125))) = 12" .
  have final: "curr_frame (run_clock clock_init (replicate 50 (f32_of_rat (2 / 125)))) = 12"
    by (simp add: scenario_clock)
  show ?thesis
    by (intro conjI)
      (fact index count tick_period_value clock_step_time clock_step_prev_time
        clock_step_changed at below twelve final scenario_flags)+
qed

text \<open>
  An iteration that took a whole second holds the test once and moves the index to 1.
\<close>

theorem clock_index_counts_advances_witness:
  "advances clock_init [f32_of_rat 1] = 1 \<and> curr_frame (run_clock clock_init [f32_of_rat 1]) = 1"
proof -
  have "advances clock_init [f32_of_rat 1] = 1"
    by (simp add: clock_init_def one_second tick_period_value f32_eval)
  with clock_index_counts_advances [of "[f32_of_rat 1]" clock_init "f32_of_rat 1"]
  show ?thesis
    by simp
qed

section \<open>Properties of the loop and of the process\<close>

lemma handle_event_clk: "clk (handle_event ev a) = clk a"
  by (induction ev a rule: handle_event.induct) (simp_all add: Let_def)

lemma poll_events_clk: "clk (poll_events evs a) = clk a"
  by (induction evs arbitrary: a) (simp_all add: handle_event_clk)

lemma handle_event_stopped: "\<not> running a \<Longrightarrow> \<not> running (handle_event ev a)"
  by (induction ev a rule: handle_event.induct) (simp_all add: Let_def)

lemma poll_events_stopped: "\<not> running a \<Longrightarrow> \<not> running (poll_events evs a)"
  by (induction evs arbitrary: a) (simp_all add: handle_event_stopped)

lemma poll_events_quit: "SDL_QUIT \<in> set evs \<Longrightarrow> \<not> running (poll_events evs a)"
proof (induction evs arbitrary: a)
  case Nil
  then show ?case by simp
next
  case (Cons ev evs)
  show ?case
  proof (cases "ev = SDL_QUIT")
    case True
    then show ?thesis by (simp add: poll_events_stopped)
  next
    case False
    with Cons show ?thesis by simp
  qed
qed

lemma frame_data_in_bounds:
  "length table = 15 \<Longrightarrow> 0 \<le> i \<Longrightarrow> i < 15 \<Longrightarrow> frame_data table i = Inr (table ! nat i)"
  by (simp add: frame_data_def)

lemma draw_in_bounds:
  assumes "length (test_image_data e) = 15"
    and "0 \<le> curr_frame (clk a)" and "curr_frame (clk a) < 15"
  shows "\<exists>g. draw e h a = Inr (a\<lparr>gl := g\<rparr>)"
  by (auto simp: draw_def Let_def frame_data_in_bounds [OF assms])

lemma main_loop_in_bounds:
  assumes "length (test_image_data e) = 15"
  shows "0 \<le> curr_frame (clk a) \<Longrightarrow> curr_frame (clk a) < 15 \<Longrightarrow>
           \<exists>r. main_loop e h its a = Inr r"
proof (induction its arbitrary: a)
  case Nil
  then show ?case by simp
next
  case (Cons it its)
  obtain events dt where it: "it = (events, dt)"
    by (cases it)
  let ?a = "(poll_events events a)\<lparr>clk := clock_step dt (clk (poll_events events a))\<rparr>"
  have range: "0 \<le> curr_frame (clk ?a)" "curr_frame (clk ?a) < 15"
    using clock_step_range [OF Cons.prems, of dt] by (simp_all add: poll_events_clk)
  from draw_in_bounds [OF assms range] obtain g where g: "draw e h ?a = Inr (?a\<lparr>gl := g\<rparr>)"
    by blast
  have "\<exists>r. main_loop e h its (?a\<lparr>gl := g\<rparr>) = Inr r"
    using range by (intro Cons.IH) simp_all
  then show ?case
    by (simp add: it Let_def g)
qed

lemma main_loop_left:
  assumes "length (test_image_data e) = 15"
  shows "0 \<le> curr_frame (clk a) \<Longrightarrow> curr_frame (clk a) < 15 \<Longrightarrow>
           \<exists>it \<in> set its. SDL_QUIT \<in> set (fst it) \<Longrightarrow>
           \<exists>b. main_loop e h its a = Inr (Left b)"
proof (induction its arbitrary: a)
  case Nil
  then show ?case by simp
next
  case (Cons it its)
  obtain events dt where it: "it = (events, dt)"
    by (cases it)
  show ?case
  proof (cases "running (poll_events events a)")
    case False
    then show ?thesis by (simp add: it)
  next
    case True
    then have "SDL_QUIT \<notin> set events"
      using poll_events_quit by blast
    with Cons.prems(3) have rest: "\<exists>it \<in> set its. SDL_QUIT \<in> set (fst it)"
      by (simp add: it)
    let ?a = "(poll_events events a)\<lparr>clk := clock_step dt (clk (poll_events events a))\<rparr>"
    have range: "0 \<le> curr_frame (clk ?a)" "curr_frame (clk ?a) < 15"
      using clock_step_range [OF Cons.prems(1,2), of dt] by (simp_all add: poll_events_clk)
    from draw_in_bounds [OF assms range] obtain g where g: "draw e h ?a = Inr (?a\<lparr>gl := g\<rparr>)"
      by blast
    have "\<exists>b. main_loop e h its (?a\<lparr>gl := g\<rparr>) = Inr (Left b)"
      using range rest by (intro Cons.IH) simp_all
    then show ?thesis
      by (simp add: it Let_def g True)
  qed
qed

lemma build_animated_cases:
  "build_animated e g = Inl f \<Longrightarrow> f = OutOfBounds \<and> test_image_data e = []"
  by (auto simp: build_animated_def frame_data_def glGenTextures_def Let_def
      split: if_splits sum.splits)

lemma build_animated_in_bounds:
  "test_image_data e \<noteq> [] \<Longrightarrow> \<exists>r. build_animated e g = Inr r"
  by (simp add: build_animated_def frame_data_def glGenTextures_def Let_def)

lemma startup_app:
  assumes "startup e = Inr (h, a)"
  shows "clk a = clock_init" and "running a"
    and "width a = fst (SDL_GetWindowSize e)" and "height a = snd (SDL_GetWindowSize e)"
    and "tex_location h = glGetUniformLocation e ''tex''"
    and "tex_img_location h = glGetUniformLocation e ''tex''"
    and "projection_location h = glGetUniformLocation e ''projection''"
  using assms
  by (auto simp: startup_def Let_def split: if_splits option.splits sum.splits prod.splits)

lemma startup_succeeds:
  assumes "SDL_Init e = 0" and "SDL_CreateWindow e" and "SDL_GL_CreateContext e"
    and "glewInit e = None" and "GLEW_VERSION_3_3 e" and "vertex_shader_log e = None"
    and "fragment_shader_log e = None" and "program_log e = None"
    and "test_image_data e \<noteq> []"
  shows "\<exists>h a. startup e = Inr (h, a)"
proof -
  from build_animated_in_bounds [OF assms(9)]
  obtain r where r: "build_animated e (snd (build_checkerboard e (gl_context (SDL_GetWindowSize e)))) = Inr r"
    by blast
  show ?thesis
    using assms(1-8)
    by (cases r) (simp add: startup_def create_shader_def create_program_def split_def r)
qed

lemma startup_throws:
  "SDL_Init e \<noteq> 0 \<Longrightarrow> startup e = Inl (Thrown (''SDL_Init: '' @ SDL_GetError e))"
  "SDL_Init e = 0 \<Longrightarrow> \<not> SDL_CreateWindow e \<Longrightarrow>
     startup e = Inl (Thrown (''SDL_CreateWindow: '' @ SDL_GetError e))"
  "SDL_Init e = 0 \<Longrightarrow> SDL_CreateWindow e \<Longrightarrow> \<not> SDL_GL_CreateContext e \<Longrightarrow>
     startup e = Inl (Thrown (''SDL_GL_CreateContext: '' @ SDL_GetError e))"
  "SDL_Init e = 0 \<Longrightarrow> SDL_CreateWindow e \<Longrightarrow> SDL_GL_CreateContext e \<Longrightarrow>
     glewInit e = Some error \<Longrightarrow> startup e = Inl (Thrown (''glewInit: '' @ error))"
  "SDL_Init e = 0 \<Longrightarrow> SDL_CreateWindow e \<Longrightarrow> SDL_GL_CreateContext e \<Longrightarrow>
     glewInit e = None \<Longrightarrow> \<not> GLEW_VERSION_3_3 e \<Longrightarrow>
     startup e = Inl (Thrown ''OpenGL 3.3 is not supported'')"
  "SDL_Init e = 0 \<Longrightarrow> SDL_CreateWindow e \<Longrightarrow> SDL_GL_CreateContext e \<Longrightarrow>
     glewInit e = None \<Longrightarrow> GLEW_VERSION_3_3 e \<Longrightarrow> vertex_shader_log e = Some info_log \<Longrightarrow>
     startup e = Inl (Thrown (''Shader compilation failed: '' @ info_log))"
  "SDL_Init e = 0 \<Longrightarrow> SDL_CreateWindow e \<Longrightarrow> SDL_GL_CreateContext e \<Longrightarrow>
     glewInit e = None \<Longrightarrow> GLEW_VERSION_3_3 e \<Longrightarrow> vertex_shader_log e = None \<Longrightarrow>
     fragment_shader_log e = Some info_log \<Longrightarrow>
     startup e = Inl (Thrown (''Shader compilation failed: '' @ info_log))"
  "SDL_Init e = 0 \<Longrightarrow> SDL_CreateWindow e \<Longrightarrow> SDL_GL_CreateContext e \<Longrightarrow>
     glewInit e = None \<Longrightarrow> GLEW_VERSION_3_3 e \<Longrightarrow> vertex_shader_log e = None \<Longrightarrow>
     fragment_shader_log e = None \<Longrightarrow> program_log e = Some info_log \<Longrightarrow>
     startup e = Inl (Thrown (''Program linkage failed: '' @ info_log))"
  by (simp_all add: startup_def sdl2_fail_def glew_fail_def create_shader_def create_program_def)

lemma startup_in_bounds:
  assumes "length (test_image_data e) = 15"
  shows "startup e \<noteq> Inl OutOfBounds"
proof -
  have "test_image_data e \<noteq> []"
    using assms by auto
  from build_animated_in_bounds [OF this]
  obtain r where r: "build_animated e (snd (build_checkerboard e (gl_context (SDL_GetWindowSize e)))) = Inr r"
    by blast
  show ?thesis
    by (cases r)
      (simp add: startup_def sdl2_fail_def glew_fail_def create_shader_def create_program_def
        split_def r split: option.splits)
qed

lemma handle_event_running: "running a \<Longrightarrow> ev \<noteq> SDL_QUIT \<Longrightarrow> running (handle_event ev a)"
  by (induction ev a rule: handle_event.induct) (simp_all add: Let_def)

lemma poll_events_running: "running a \<Longrightarrow> SDL_QUIT \<notin> set evs \<Longrightarrow> running (poll_events evs a)"
  by (induction evs arbitrary: a) (auto simp: handle_event_running)

lemma main_loop_looping:
  assumes "length (test_image_data e) = 15"
  shows "0 \<le> curr_frame (clk a) \<Longrightarrow> curr_frame (clk a) < 15 \<Longrightarrow> running a \<Longrightarrow>
           \<forall>it \<in> set its. SDL_QUIT \<notin> set (fst it) \<Longrightarrow>
           \<exists>b. main_loop e h its a = Inr (Looping b) \<and> running b \<and>
                 clk b = run_clock (clk a) (map snd its)"
proof (induction its arbitrary: a)
  case Nil
  then show ?case by simp
next
  case (Cons it its)
  obtain events dt where it: "it = (events, dt)"
    by (cases it)
  define a1 where "a1 = poll_events events a"
  have clk1: "clk a1 = clk a"
    by (simp add: a1_def poll_events_clk)
  have run: "running a1"
    using Cons.prems(3,4) by (simp add: it a1_def poll_events_running)
  let ?a = "a1\<lparr>clk := clock_step dt (clk a)\<rparr>"
  have range: "0 \<le> curr_frame (clk ?a)" "curr_frame (clk ?a) < 15"
    using clock_step_range [OF Cons.prems(1,2), of dt] by simp_all
  from draw_in_bounds [OF assms range] obtain g where g: "draw e h ?a = Inr (?a\<lparr>gl := g\<rparr>)"
    by blast
  have "\<exists>b. main_loop e h its (?a\<lparr>gl := g\<rparr>) = Inr (Looping b) \<and> running b \<and>
          clk b = run_clock (clk (?a\<lparr>gl := g\<rparr>)) (map snd its)"
    using range run Cons.prems(4) by (intro Cons.IH) simp_all
  then show ?case
    by (simp add: it Let_def a1_def [symmetric] clk1 run g)
qed

text \<open>
  Claim C9.  With the 15 frames that the header provides, no run of the program indexes
  \<open>test_image_data\<close> outside its bounds: index 0 at start-up is in the table, and so is
  \<open>curr_frame\<close> after any number of iterations of the clock, which is the index used
  whenever the frame changed.
\<close>

theorem frame_table_in_bounds:
  assumes "length (test_image_data e) = 15"
  shows "main e its \<noteq> Undefined \<and>
         frame_data (test_image_data e) 0 = Inr (test_image_data e ! 0) \<and>
         0 \<le> curr_frame (run_clock clock_init dts) \<and>
         curr_frame (run_clock clock_init dts) < 15 \<and>
         frame_data (test_image_data e) (curr_frame (run_clock clock_init dts)) =
           Inr (test_image_data e ! nat (curr_frame (run_clock clock_init dts)))"
proof -
  have range: "0 \<le> curr_frame (run_clock clock_init dts) \<and>
               curr_frame (run_clock clock_init dts) < 15"
    by (rule run_clock_range) (simp_all add: clock_init_def)
  have "main e its \<noteq> Undefined"
  proof (cases "startup e")
    case (Inl f)
    with startup_in_bounds [OF assms] show ?thesis
      by (cases f) (simp_all add: main_def)
  next
    case (Inr p)
    obtain h a where p: "p = (h, a)"
      by (cases p)
    have "clk a = clock_init"
      using Inr p by (simp add: startup_app)
    then obtain r where "main_loop e h its a = Inr r"
      using main_loop_in_bounds [OF assms, of a h its] by (auto simp: clock_init_def)
    then show ?thesis
      by (cases r) (simp_all add: main_def Inr p)
  qed
  then show ?thesis
    using range assms by (simp add: frame_data_in_bounds)
qed

theorem frame_table_in_bounds_witness:
  "length (test_image_data env0) = 15 \<and>
   main env0 [([], f32_of_rat 1), ([], f32_of_rat 1)] \<noteq> Undefined \<and>
   frame_data (test_image_data env0) (curr_frame (run_clock clock_init [f32_of_rat 1])) = Inr []"
proof -
  have len: "length (test_image_data env0) = 15"
    by (simp add: env0_def)
  have "curr_frame (run_clock clock_init [f32_of_rat 1]) = 1"
    by (simp add: clock_init_def one_second tick_period_value f32_eval clock_step_def)
  with frame_table_in_bounds [OF len, of "[([], f32_of_rat 1), ([], f32_of_rat 1)]" "[f32_of_rat 1]"]
  show ?thesis
    by (simp add: env0_def)
qed

text \<open>
  Claim C10.  Every error thrown during set-up ends the process with \<open>EXIT_FAILURE\<close>,
  which is not 0, after the text of the error and a newline have been written to the error
  stream.  When set-up succeeds, the process ends with code 0 and nothing written as
  soon as an iteration finds a quit event, and has not ended while none has arrived.
  Nothing in the loop throws.
\<close>

theorem process_exit_codes:
  "(startup e = Inl (Thrown what) \<longrightarrow> main e its = Exit EXIT_FAILURE (what @ endl)) \<and>
   EXIT_FAILURE \<noteq> 0 \<and>
   (length (test_image_data e) = 15 \<and> startup e = Inr (h, a) \<and>
      (\<exists>it \<in> set its. SDL_QUIT \<in> set (fst it)) \<longrightarrow> main e its = Exit 0 []) \<and>
   (length (test_image_data e) = 15 \<and> startup e = Inr (h, a) \<and>
      (\<forall>it \<in> set its. SDL_QUIT \<notin> set (fst it)) \<longrightarrow> main e its = Running)"
proof -
  have left: "main e its = Exit 0 []"
    if len: "length (test_image_data e) = 15" and start: "startup e = Inr (h, a)"
      and quit: "\<exists>it \<in> set its. SDL_QUIT \<in> set (fst it)"
  proof -
    have "clk a = clock_init"
      using start by (simp add: startup_app)
    then obtain b where "main_loop e h its a = Inr (Left b)"
      using main_loop_left [OF len, of a its h] quit by (auto simp: clock_init_def)
    then show ?thesis
      by (simp add: main_def start)
  qed
  have looping: "main e its = Running"
    if len: "length (test_image_data e) = 15" and start: "startup e = Inr (h, a)"
      and no_quit: "\<forall>it \<in> set its. SDL_QUIT \<notin> set (fst it)"
  proof -
    have "clk a = clock_init" "running a"
      using start by (simp_all add: startup_app)
    then obtain b where "main_loop e h its a = Inr (Looping b)"
      using main_loop_looping [OF len, of a its h] no_quit by (auto simp: clock_init_def)
    then show ?thesis
      by (simp add: main_def start)
  qed
  show ?thesis
    using left looping by (auto simp: main_def EXIT_FAILURE_def)
qed

theorem process_exit_codes_witness:
  "main (env0\<lparr>SDL_Init := 1, SDL_GetError := ''No available video device''\<rparr>) [] =
     Exit 1 (''SDL_Init: No available video device'' @ endl) \<and>
   main env0 [([], f32_of_rat 1), ([SDL_KEYDOWN 27, SDL_QUIT], f32_of_rat 1)] = Exit 0 [] \<and>
   main env0 [([], f32_of_rat 1), ([SDL_KEYDOWN 27], f32_of_rat 1)] = Running"
proof -
  let ?e = "env0\<lparr>SDL_Init := 1, SDL_GetError := ''No available video device''\<rparr>"
  have fail: "startup ?e = Inl (Thrown ''SDL_Init: No available video device'')"
    by (simp add: startup_throws(1))
  have len: "length (test_image_data env0) = 15"
    by (simp add: env0_def)
  obtain h a where ok: "startup env0 = Inr (h, a)"
    using startup_succeeds [of env0] by (auto simp: env0_def)
  from fail process_exit_codes [of ?e "''SDL_Init: No available video device''" "[]"]
  have "main ?e [] = Exit 1 (''SDL_Init: No available video device'' @ endl)"
    by (simp add: EXIT_FAILURE_def)
  moreover
  from len ok process_exit_codes [of env0 _ "[([], f32_of_rat 1), ([SDL_KEYDOWN 27, SDL_QUIT], f32_of_rat 1)]" h a]
  have "main env0 [([], f32_of_rat 1), ([SDL_KEYDOWN 27, SDL_QUIT], f32_of_rat 1)] = Exit 0 []"
    by simp
  moreover
  from len ok process_exit_codes [of env0 _ "[([], f32_of_rat 1), ([SDL_KEYDOWN 27], f32_of_rat 1)]" h a]
  have "main env0 [([], f32_of_rat 1), ([SDL_KEYDOWN 27], f32_of_rat 1)] = Running"
    by simp
  ultimately show ?thesis
    by simp
qed

section \<open>Properties of the projection matrix and of resizing\<close>

lemma near_value: "near = Finite False (13421773 / 2 ^ 27)"
  by (simp add: near_def f32_eval)

lemma far_value: "far = Finite False 100"
  by (simp add: far_def f32_eval)

lemma fneg_f32_round: "fneg (f32_round s m) = f32_round (\<not> s) m"
  by (simp add: f32_round_def split: option.splits)

lemma fdiv_fneg: "fdiv (fneg a) b = fneg (fdiv a b)"
  by (cases a; cases b) (auto simp: fneg_f32_round)

lemma depth_entry_value:
  "fdiv (fneg (fadd far near)) (fsub far near) = Finite True (4202701 / 2 ^ 22)"
  by (simp add: near_value far_value f32_eval)

lemma right_800_600: "right 800 600 = Finite False (8947849 / 2 ^ 26)"
  by (simp add: right_def top_f32_def near_value f32_eval)

lemma right_1920_1080: "right 1920 1080 = Finite False (11930465 / 2 ^ 26)"
  by (simp add: right_def top_f32_def near_value f32_eval)

lemma right_1024_768: "right 1024 768 = Finite False (8947849 / 2 ^ 26)"
  by (simp add: right_def top_f32_def near_value f32_eval)

text \<open>
  Claim C6.  For every width and height the entry (0,0) of the projection matrix is
  \<open>near / right\<close> and the entry (2,2) is \<open>-(far + near) / (far - near)\<close>, with
  \<open>near = 0.1f\<close>, \<open>far = 100.f\<close>, \<open>top = near\<close> and \<open>right = (top * width) / height\<close>, all
  in single precision.  For 800 by 600 the entry (0,0) is 0.75, for 1920 by 1080 it is
  0.5625, and the entry (2,2) is always -4202701 / 4194304, about -1.002002.
\<close>

theorem projection_entries:
  "entry (projection w h) 0 0 = fdiv near (right w h) \<and>
   entry (projection w h) 2 2 = fdiv (fneg (fadd far near)) (fsub far near) \<and>
   entry (projection w h) 2 2 = fneg (fdiv (fadd far near) (fsub far near)) \<and>
   right w h = fdiv (fmul top_f32 (f32_of_int w)) (f32_of_int h) \<and>
   top_f32 = near \<and> near = f32_of_rat (1 / 10) \<and> far = f32_of_rat 100 \<and>
   entry (projection 800 600) 0 0 = Finite False (3 / 4) \<and>
   entry (projection 1920 1080) 0 0 = Finite False (9 / 16) \<and>
   entry (projection w h) 2 2 = Finite True (4202701 / 2 ^ 22)"
proof -
  have e00: "entry (projection w h) 0 0 = fdiv near (right w h)"
    by (simp add: entry_def projection_def)
  have e22: "entry (projection w h) 2 2 = fdiv (fneg (fadd far near)) (fsub far near)"
    by (simp add: entry_def projection_def)
  have e22': "entry (projection w h) 2 2 = fneg (fdiv (fadd far near) (fsub far near))"
    by (simp only: e22 fdiv_fneg)
  have r: "right w h = fdiv (fmul top_f32 (f32_of_int w)) (f32_of_int h)"
    by (simp add: right_def)
  have params: "top_f32 = near" "near = f32_of_rat (1 / 10)" "far = f32_of_rat 100"
    by (simp_all add: top_f32_def near_def far_def)
  have v1: "entry (projection 800 600) 0 0 = Finite False (3 / 4)"
    by (simp add: entry_def projection_def right_800_600 near_value f32_eval)
  have v2: "entry (projection 1920 1080) 0 0 = Finite False (9 / 16)"
    by (simp add: entry_def projection_def right_1920_1080 near_value f32_eval)
  have v3: "entry (projection w h) 2 2 = Finite True (4202701 / 2 ^ 22)"
    by (simp only: e22 depth_entry_value)
  show ?thesis
    by (intro conjI) (fact e00 e22 e22' r params v1 v2 v3)+
qed

lemma draw_projection:
  assumes "draw e h a = Inr b" and "projection_location h \<noteq> - 1"
  shows "uniform_matrix (gl b) (projection_location h) = projection (width a) (height a)"
  using assms
  by (auto simp: draw_def Let_def glUniformMatrix4fv_def glUniform1i_def glActiveTexture_def
      glBindTexture_def glTexSubImage2D_def glGenerateMipmap_def
      split: if_splits sum.splits option.splits)

text \<open>
  Claim C8.  A resize event with \<open>data1 = 1024\<close> and \<open>data2 = 768\<close> stores exactly these
  as width and height (and as the viewport), and the projection matrix that the next draw
  computes and uploads uses \<open>right = (0.1f * 1024) / 768\<close>.
\<close>

theorem resize_1024_768:
  "width (handle_event (SDL_WINDOWEVENT SDL_WINDOWEVENT_RESIZED 1024 768) a) = 1024 \<and>
   height (handle_event (SDL_WINDOWEVENT SDL_WINDOWEVENT_RESIZED 1024 768) a) = 768 \<and>
   viewport (gl (handle_event (SDL_WINDOWEVENT SDL_WINDOWEVENT_RESIZED 1024 768) a)) =
     (0, 0, 1024, 768) \<and>
   right (width (handle_event (SDL_WINDOWEVENT SDL_WINDOWEVENT_RESIZED 1024 768) a))
         (height (handle_event (SDL_WINDOWEVENT SDL_WINDOWEVENT_RESIZED 1024 768) a)) =
     fdiv (fmul (f32_of_rat (1 / 10)) (f32_of_int 1024)) (f32_of_int 768) \<and>
   (projection_location h \<noteq> - 1 \<and>
    draw e h ((handle_event (SDL_WINDOWEVENT SDL_WINDOWEVENT_RESIZED 1024 768) a)
                \<lparr>clk := c\<rparr>) = Inr b \<longrightarrow>
    entry (uniform_matrix (gl b) (projection_location h)) 0 0 =
      fdiv near (fdiv (fmul (f32_of_rat (1 / 10)) (f32_of_int 1024)) (f32_of_int 768)))"
proof -
  let ?a = "handle_event (SDL_WINDOWEVENT SDL_WINDOWEVENT_RESIZED 1024 768) a"
  have size: "width ?a = 1024" "height ?a = 768"
    by (simp_all add: Let_def)
  have "entry (uniform_matrix (gl b) (projection_location h)) 0 0 =
      fdiv near (fdiv (fmul (f32_of_rat (1 / 10)) (f32_of_int 1024)) (f32_of_int 768))"
    if "projection_location h \<noteq> - 1" and "draw e h (?a\<lparr>clk := c\<rparr>) = Inr b"
    using draw_projection [OF that(2,1)] size
    by (simp add: entry_def projection_def right_def top_f32_def near_def)
  then show ?thesis
    by (simp add: Let_def glViewport_def right_def top_f32_def near_def)
qed


text \<open>
  A window of 800 by 600 that is resized to 1024 by 768: the draw that follows uploads
  0.75 as entry (0,0).
\<close>

theorem resize_1024_768_witness:
  "width (handle_event (SDL_WINDOWEVENT SDL_WINDOWEVENT_RESIZED 1024 768)
     \<lparr>width = 800, height = 600, running = True, button_down = Map.empty,
      clk = clock_init, gl = gl_context (800, 600)\<rparr>) = 1024 \<and>
   (case draw env0
      \<lparr>projection_location = 1, tex_location = 2, tex_img_location = 2, texture = 1, tex_img = 2\<rparr>
      ((handle_event (SDL_WINDOWEVENT SDL_WINDOWEVENT_RESIZED 1024 768)
         \<lparr>width = 800, height = 600, running = True, button_down = Map.empty,
          clk = clock_init, gl = gl_context (800, 600)\<rparr>)\<lparr>clk := clock_init\<rparr>) of
      Inl f \<Rightarrow> False
    | Inr b \<Rightarrow> entry (uniform_matrix (gl b) 1) 0 0 = Finite False (3 / 4))"
proof -
  let ?h = "\<lparr>projection_location = 1, tex_location = 2, tex_img_location = 2,
             texture = 1, tex_img = 2\<rparr>"
  let ?init = "\<lparr>width = 800, height = 600, running = True, button_down = Map.empty,
          clk = clock_init, gl = gl_context (800, 600)\<rparr>"
  let ?a = "(handle_event (SDL_WINDOWEVENT SDL_WINDOWEVENT_RESIZED 1024 768) ?init)
              \<lparr>clk := clock_init\<rparr>"
  have "\<exists>g. draw env0 ?h ?a = Inr (?a\<lparr>gl := g\<rparr>)"
    by (rule draw_in_bounds) (simp_all add: env0_def clock_init_def)
  then obtain g where g: "draw env0 ?h ?a = Inr (?a\<lparr>gl := g\<rparr>)"
    by blast
  have quotient: "fdiv near (fdiv (fmul (f32_of_rat (1 / 10)) (f32_of_int 1024)) (f32_of_int 768)) =
      Finite False (3 / 4)"
    by (simp add: near_value f32_eval)
  from resize_1024_768 [of ?init ?h env0 clock_init "?a\<lparr>gl := g\<rparr>"] g quotient show ?thesis
    by simp
qed

section \<open>Properties of the checkerboard texture\<close>

lemma concat_blocks_length:
  "(\<And>i. i < n \<Longrightarrow> length (f i) = k) \<Longrightarrow> length (concat (map f [0..<n])) = n * k"
  by (induction n) simp_all

lemma concat_blocks_nth:
  "(\<And>i. i < n \<Longrightarrow> length (f i) = k) \<Longrightarrow> i < n \<Longrightarrow> j < k \<Longrightarrow>
     concat (map f [0..<n]) ! (i * k + j) = f i ! j"
proof (induction n)
  case 0
  then show ?case by simp
next
  case (Suc n)
  have len: "length (concat (map f [0..<n])) = n * k"
    using Suc.prems(1) by (intro concat_blocks_length) simp
  show ?case
  proof (cases "i < n")
    case True
    have "i * k + j < Suc i * k"
      using Suc.prems(3) by simp
    also have "\<dots> \<le> n * k"
      using True by (intro mult_le_mono1) simp
    finally have "i * k + j < n * k" .
    with True Suc show ?thesis
      by (simp add: nth_append len)
  next
    case False
    with Suc.prems(2) have "i = n" by simp
    then show ?thesis
      by (simp add: nth_append len)
  qed
qed

lemma inner_loop_eq:
  "inner_loop n x y bytes =
     bytes @ concat (map (\<lambda>y. [word_of_int (int (x + y) mod 2 * 255),
                               word_of_int (int (x + y) mod 2 * 255),
                               word_of_int (int (x + y) mod 2 * 255), 255]) [y..<n])"
proof (induction n x y bytes rule: inner_loop.induct)
  case (1 n x y bytes)
  show ?case
  proof (cases "y < n")
    case True
    with 1 show ?thesis
      by (subst inner_loop.simps) (simp add: upt_conv_Cons Let_def)
  next
    case False
    then show ?thesis
      by (subst inner_loop.simps) simp
  qed
qed

lemma outer_loop_eq:
  "outer_loop m n x bytes = bytes @ concat (map (\<lambda>x. inner_loop n x 0 []) [x..<m])"
proof (induction m n x bytes rule: outer_loop.induct)
  case (1 m n x bytes)
  show ?case
  proof (cases "x < m")
    case True
    with 1 show ?thesis
      by (subst outer_loop.simps) (simp add: upt_conv_Cons inner_loop_eq [of n x 0 bytes] inner_loop_eq [of n x 0 "[]"])
  next
    case False
    then show ?thesis
      by (subst outer_loop.simps) simp
  qed
qed

lemma color_length: "length color = 4 * 1024 * 1024"
proof -
  have "length (concat (map (\<lambda>x. inner_loop 1024 x 0 []) [0..<1024])) = 1024 * (1024 * 4)"
    by (rule concat_blocks_length) (simp add: inner_loop_eq concat_blocks_length)
  then show ?thesis
    by (simp add: color_def img_w_def img_h_def outer_loop_eq)
qed

lemma color_nth:
  assumes "x < 1024" and "y < 1024" and "j < 4"
  shows "color ! (4 * (x * 1024 + y) + j) =
           [word_of_int (int (x + y) mod 2 * 255), word_of_int (int (x + y) mod 2 * 255),
            word_of_int (int (x + y) mod 2 * 255), 255] ! j"
proof -
  let ?px = "\<lambda>x y. [word_of_int (int (x + y) mod 2 * 255), word_of_int (int (x + y) mod 2 * 255),
                     word_of_int (int (x + y) mod 2 * 255), 255 :: u8]"
  have row: "inner_loop 1024 x 0 [] = concat (map (?px x) [0..<1024])" for x
    by (simp add: inner_loop_eq)
  have row_len: "length (inner_loop 1024 x 0 []) = 1024 * 4" for x
    unfolding row by (rule concat_blocks_length) simp
  have "y * 4 + j < 1024 * 4"
    using assms(2,3) by simp
  then have "concat (map (\<lambda>x. inner_loop 1024 x 0 []) [0..<1024]) ! (x * (1024 * 4) + (y * 4 + j)) =
      inner_loop 1024 x 0 [] ! (y * 4 + j)"
    using assms(1) row_len by (intro concat_blocks_nth) simp_all
  also have "\<dots> = ?px x y ! j"
    unfolding row using assms(2,3) by (intro concat_blocks_nth) simp_all
  finally show ?thesis
    by (simp add: color_def img_w_def img_h_def outer_loop_eq algebra_simps)
qed

lemma checker_byte:
  "(word_of_int (int n mod 2 * 255) :: u8) = (if n mod 2 = 1 then 255 else 0)"
proof (cases "n mod 2 = 1")
  case True
  then have "int n mod 2 = 1"
    by presburger
  with True show ?thesis by simp
next
  case False
  then have "int n mod 2 = 0"
    by presburger
  with False show ?thesis by simp
qed

lemma color_texel:
  assumes "x < 1024" and "y < 1024" and "j < 4"
  shows "color ! (4 * (x * 1024 + y) + j) =
           [if (x + y) mod 2 = 1 then 255 else 0, if (x + y) mod 2 = 1 then 255 else 0,
            if (x + y) mod 2 = 1 then 255 else 0, 255] ! j"
  using color_nth [OF assms] unfolding checker_byte .

lemma checkerboard_levels:
  "checkerboard_level e g 0 =
     Some \<lparr>image_format = GL_RGBA8, image_width = 1024, image_height = 1024, image_data = color\<rparr>"
  "checkerboard_level e g 1 =
     Some \<lparr>image_format = GL_RGBA8, image_width = 512, image_height = 512,
           image_data = vector_bytes (host_byte_order e) red_mipmap\<rparr>"
  "checkerboard_level e g 2 =
     Some \<lparr>image_format = GL_RGBA8, image_width = 256, image_height = 256,
           image_data = vector_bytes (host_byte_order e) green_mipmap\<rparr>"
  "checkerboard_level e g 3 =
     Some \<lparr>image_format = GL_RGBA8, image_width = 128, image_height = 128,
           image_data = vector_bytes (host_byte_order e) blue_mipmap\<rparr>"
  by (simp_all add: checkerboard_level_def build_checkerboard_def glGenTextures_def
      glBindTexture_def glTexImage2D_def glGenerateMipmap_def bound_texture_def Let_def
      img_w_def img_h_def)

text \<open>
  Claim C5.  Level 0 of the checkerboard texture is the 1024 by 1024 RGBA8 image held in
  \<open>color\<close>, and its texel (x, y) is opaque white when \<open>x + y\<close> is odd and opaque black
  when it is even.  This holds both for the pixel that the loops push for their \<open>x\<close> and
  \<open>y\<close> and for the texel in column \<open>x\<close> of row \<open>y\<close> that OpenGL reads from the buffer.
\<close>

theorem checkerboard_base_image:
  assumes "x < 1024" and "y < 1024"
  shows "checkerboard_level e g 0 =
           Some \<lparr>image_format = GL_RGBA8, image_width = 1024, image_height = 1024,
                 image_data = color\<rparr> \<and>
         length color = 4 * 1024 * 1024 \<and>
         level_texel (checkerboard_level e g 0) x y =
           Some (if (x + y) mod 2 = 1 then (255, 255, 255, 255) else (0, 0, 0, 255)) \<and>
         map (\<lambda>j. color ! (4 * (x * 1024 + y) + j)) [0, 1, 2, 3] =
           (if (x + y) mod 2 = 1 then [255, 255, 255, 255] else [0, 0, 0, 255])"
proof -
  have swap: "(y + x) mod 2 = (x + y) mod 2"
    by (simp add: add.commute)
  have texel: "level_texel (checkerboard_level e g 0) x y =
      Some (if (x + y) mod 2 = 1 then (255, 255, 255, 255) else (0, 0, 0, 255))"
    using color_texel [OF assms(2,1), of 0] color_texel [OF assms(2,1), of 1]
      color_texel [OF assms(2,1), of 2] color_texel [OF assms(2,1), of 3] assms
    by (simp add: level_texel_def checkerboard_levels texel_def Let_def color_length swap)
  have pushed: "map (\<lambda>j. color ! (4 * (x * 1024 + y) + j)) [0, 1, 2, 3] =
      (if (x + y) mod 2 = 1 then [255, 255, 255, 255] else [0, 0, 0, 255])"
    using color_texel [OF assms, of 0] color_texel [OF assms, of 1]
      color_texel [OF assms, of 2] color_texel [OF assms, of 3]
    by simp
  show ?thesis
    using texel pushed by (simp add: checkerboard_levels color_length)
qed

theorem checkerboard_base_image_witness:
  "level_texel (checkerboard_level env0 (gl_context (800, 600)) 0) 3 4 =
     Some (255, 255, 255, 255) \<and>
   level_texel (checkerboard_level env0 (gl_context (800, 600)) 0) 1023 1023 =
     Some (0, 0, 0, 255)"
proof -
  have odd: "(3::nat) < 1024" "(4::nat) < 1024" and even: "(1023::nat) < 1024"
    by simp_all
  from checkerboard_base_image [OF odd, of env0 "gl_context (800, 600)"]
  have "level_texel (checkerboard_level env0 (gl_context (800, 600)) 0) 3 4 =
      Some (if (3 + 4) mod 2 = (1::nat) then (255, 255, 255, 255) else (0, 0, 0, 255))"
    by blast
  moreover
  from checkerboard_base_image [OF even even, of env0 "gl_context (800, 600)"]
  have "level_texel (checkerboard_level env0 (gl_context (800, 600)) 0) 1023 1023 =
      Some (if (1023 + 1023) mod 2 = (1::nat) then (255, 255, 255, 255) else (0, 0, 0, 255))"
    by blast
  ultimately show ?thesis
    by simp
qed

lemma word_bytes_length: "length (word_bytes bo w) = 4"
  by (cases bo) (simp_all add: word_bytes_def)

lemma vector_bytes_replicate:
  "vector_bytes bo (replicate n w) = concat (map (\<lambda>i. word_bytes bo w) [0..<n])"
  by (simp add: vector_bytes_def map_replicate_trivial)

lemma solid_texel:
  assumes "x < m" and "y < n"
  shows "texel \<lparr>image_format = fmt, image_width = m, image_height = n,
                 image_data = vector_bytes bo (replicate (m * n) w)\<rparr> x y =
           Some (word_bytes bo w ! 0, word_bytes bo w ! 1, word_bytes bo w ! 2, word_bytes bo w ! 3)"
proof -
  let ?d = "concat (map (\<lambda>i. word_bytes bo w) [0..<m * n])"
  have "y * m + x < Suc y * m"
    using assms(1) by simp
  also have "\<dots> \<le> n * m"
    using assms(2) by (intro mult_le_mono1) simp
  finally have inside: "y * m + x < m * n"
    by (simp add: mult.commute)
  have len: "length ?d = m * n * 4"
    by (rule concat_blocks_length) (rule word_bytes_length)
  have nth: "?d ! ((y * m + x) * 4 + j) = word_bytes bo w ! j" if "j < 4" for j
    using inside that by (intro concat_blocks_nth) (simp_all add: word_bytes_length)
  have last: "4 * (y * m + x) + 3 < length ?d"
    using inside by (simp add: len)
  show ?thesis
    using nth [of 0] nth [of 1] nth [of 2] nth [of 3] last assms
    by (simp add: texel_def Let_def vector_bytes_replicate mult.commute)
qed

lemma mipmap_words:
  "word_bytes LittleEndian 0xff0000ff = [255, 0, 0, 255]"
  "word_bytes LittleEndian 0xffff0000 = [0, 0, 255, 255]"
  "word_bytes LittleEndian 0xff00ff00 = [0, 255, 0, 255]"
  "word_bytes BigEndian 0xff0000ff = [255, 0, 0, 255]"
  "word_bytes BigEndian 0xffff0000 = [255, 255, 0, 0]"
  "word_bytes BigEndian 0xff00ff00 = [255, 0, 255, 0]"
  by (simp_all add: word_bytes_def)

lemma solid_level:
  assumes "level = Some \<lparr>image_format = fmt, image_width = m, image_height = n,
                          image_data = vector_bytes bo (replicate (m * n) w)\<rparr>"
    and "x < m" and "y < n" and "word_bytes bo w = [r, g, b, a]"
  shows "level_texel level x y = Some (r, g, b, a)"
  using solid_texel [OF assms(2,3), of fmt bo w] assms(1,4)
  by (simp add: level_texel_def)

text \<open>
  Claim C2 does not hold of the code.  Levels 1, 2 and 3 do replace what
  \<open>glGenerateMipmap\<close> produced, whatever the filter, with solid images of 512, 256 and 128
  texels a side, and level 1 is opaque red.  But the word \<open>0xffff0000\<close> of
  \<open>green_mipmap\<close> lies in memory as the bytes 0, 0, 255, 255 on a little-endian host,
  which \<open>GL_RGBA\<close> with \<open>GL_UNSIGNED_BYTE\<close> reads as opaque blue, and the word
  \<open>0xff00ff00\<close> of \<open>blue_mipmap\<close> as 0, 255, 0, 255, opaque green: level 2 is blue and
  level 3 is green.  On a big-endian host they are transparent yellow and transparent
  magenta.
\<close>

theorem mipmap_levels_colors:
  "(\<forall>x<512. \<forall>y<512.
      level_texel (checkerboard_level (e\<lparr>host_byte_order := LittleEndian\<rparr>) g 1) x y =
        Some (255, 0, 0, 255) \<and>
      level_texel (checkerboard_level (e\<lparr>host_byte_order := BigEndian\<rparr>) g 1) x y =
        Some (255, 0, 0, 255)) \<and>
   (\<forall>x<256. \<forall>y<256.
      level_texel (checkerboard_level (e\<lparr>host_byte_order := LittleEndian\<rparr>) g 2) x y =
        Some (0, 0, 255, 255) \<and>
      level_texel (checkerboard_level (e\<lparr>host_byte_order := BigEndian\<rparr>) g 2) x y =
        Some (255, 255, 0, 0)) \<and>
   (\<forall>x<128. \<forall>y<128.
      level_texel (checkerboard_level (e\<lparr>host_byte_order := LittleEndian\<rparr>) g 3) x y =
        Some (0, 255, 0, 255) \<and>
      level_texel (checkerboard_level (e\<lparr>host_byte_order := BigEndian\<rparr>) g 3) x y =
        Some (255, 0, 255, 0)) \<and>
   map (map_option image_width \<circ> checkerboard_level e g) [1, 2, 3] =
     [Some 512, Some 256, Some 128] \<and>
   map (map_option image_height \<circ> checkerboard_level e g) [1, 2, 3] =
     [Some 512, Some 256, Some 128]"
proof -
  let ?le = "e\<lparr>host_byte_order := LittleEndian\<rparr>" and ?be = "e\<lparr>host_byte_order := BigEndian\<rparr>"
  have "level_texel (checkerboard_level ?le g 1) x y = Some (255, 0, 0, 255)"
    and "level_texel (checkerboard_level ?be g 1) x y = Some (255, 0, 0, 255)"
    if "x < 512" "y < 512" for x y
    by (rule solid_level [OF checkerboard_levels(2) [unfolded red_mipmap_def] that],
        simp add: mipmap_words)+
  moreover
  have "level_texel (checkerboard_level ?le g 2) x y = Some (0, 0, 255, 255)"
    and "level_texel (checkerboard_level ?be g 2) x y = Some (255, 255, 0, 0)"
    if "x < 256" "y < 256" for x y
    by (rule solid_level [OF checkerboard_levels(3) [unfolded green_mipmap_def] that],
        simp add: mipmap_words)+
  moreover
  have "level_texel (checkerboard_level ?le g 3) x y = Some (0, 255, 0, 255)"
    and "level_texel (checkerboard_level ?be g 3) x y = Some (255, 0, 255, 0)"
    if "x < 128" "y < 128" for x y
    by (rule solid_level [OF checkerboard_levels(4) [unfolded blue_mipmap_def] that],
        simp add: mipmap_words)+
  moreover
  have "map (map_option image_width \<circ> checkerboard_level e g) [1, 2, 3] =
      [Some 512, Some 256, Some 128]"
    and "map (map_option image_height \<circ> checkerboard_level e g) [1, 2, 3] =
      [Some 512, Some 256, Some 128]"
    using checkerboard_levels(2) [of e g] by (simp_all add: checkerboard_levels)
  ultimately show ?thesis
    by blast
qed

text \<open>
  Texel (0, 0) of level 2 on a little-endian host is blue, and that of level 3 is green.
\<close>

theorem mipmap_levels_colors_witness:
  "level_texel (checkerboard_level (env0\<lparr>host_byte_order := LittleEndian\<rparr>)
     (gl_context (800, 600)) 2) 0 0 = Some (0, 0, 255, 255) \<and>
   level_texel (checkerboard_level (env0\<lparr>host_byte_order := LittleEndian\<rparr>)
     (gl_context (800, 600)) 3) 0 0 = Some (0, 255, 0, 255)"
  using mipmap_levels_colors [of env0 "gl_context (800, 600)"]
  by simp

section \<open>Properties of the sampler uniforms\<close>










end
